theory Spec2Isabelle
  imports Complex_Main
begin

section \<open>Python values\<close>

text \<open>
  Both bots work on the objects that \<^verbatim>\<open>r.json()\<close> decodes from the classification
  service's answer: Python's \<^verbatim>\<open>None\<close>, booleans, integers, floats, strings, lists
  and dictionaries. \<open>JFloat\<close> carries the exact value of a (finite) double, so that
  Python's comparison of two numbers is the comparison of their values. A decoded
  dictionary is an association list whose keys are distinct; \<open>map_of\<close> looks a key up.
\<close>

datatype json =
    JNull
  | JBool bool
  | JInt int
  | JFloat rat
  | JStr string
  | JList "json list"
  | JDict "(string \<times> json) list"

datatype py_error =
  TypeError | ValueError | AttributeError | KeyError | IndexError | OverflowError

text \<open>Python's truth value of an object (\<^verbatim>\<open>if x\<close>, \<^verbatim>\<open>x or y\<close>, \<^verbatim>\<open>x and y\<close>).\<close>

fun truthy :: "json \<Rightarrow> bool" where
  "truthy JNull = False"
| "truthy (JBool b) = b"
| "truthy (JInt i) = (i \<noteq> 0)"
| "truthy (JFloat r) = (r \<noteq> 0)"
| "truthy (JStr s) = (s \<noteq> [])"
| "truthy (JList xs) = (xs \<noteq> [])"
| "truthy (JDict kvs) = (kvs \<noteq> [])"

text \<open>\<^verbatim>\<open>d.get(key, default)\<close>; \<^verbatim>\<open>d.get(key)\<close> is \<open>dict_get d key JNull\<close>.\<close>

definition dict_get :: "(string \<times> json) list \<Rightarrow> string \<Rightarrow> json \<Rightarrow> json" where
  "dict_get d k dflt = (case map_of d k of None \<Rightarrow> dflt | Some v \<Rightarrow> v)"

text \<open>
  \<^verbatim>\<open>x[0]\<close>: the first element of a list or the first character of a string; an empty
  one raises IndexError, a dictionary has no key \<^verbatim>\<open>0\<close> (decoded keys are strings), and
  nothing else can be subscripted.
\<close>

fun subscript0 :: "json \<Rightarrow> py_error + json" where
  "subscript0 (JList (x # xs)) = Inr x"
| "subscript0 (JList []) = Inl IndexError"
| "subscript0 (JStr (c # cs)) = Inr (JStr [c])"
| "subscript0 (JStr []) = Inl IndexError"
| "subscript0 (JDict kvs) = Inl KeyError"
| "subscript0 v = Inl TypeError"

section \<open>Classification client\<close>

text \<open>
  What one HTTP call to the classification service comes to. The request (text or
  file, sender, prior count, settings) only reaches the remote classifier, so the
  callers below take the outcome of the call as their argument.
\<close>

datatype http_outcome = Timeout | ConnectError | Unparseable | Decoded json

text \<open>
  \<^verbatim>\<open>api_text\<close> (discord/main.py 147-171, telegram/app/main.py 176-208). Every
  exception of the call, of the decoding and of the normalisation is caught by
  \<^verbatim>\<open>except Exception\<close> and turned into \<^verbatim>\<open>None\<close>, which is \<open>JNull\<close> here.
\<close>

definition api_text :: "http_outcome \<Rightarrow> json" where
  "api_text resp =
     (case resp of
        Decoded data \<Rightarrow>
          (case data of
             JDict d \<Rightarrow>
               (case map_of d ''results'' of
                  Some rs \<Rightarrow> (case subscript0 rs of Inl e \<Rightarrow> JNull | Inr v \<Rightarrow> v)
                | None \<Rightarrow> data)
           | _ \<Rightarrow> data)
      | _ \<Rightarrow> JNull)"

text \<open>\<^verbatim>\<open>api_image\<close>, \<^verbatim>\<open>api_audio\<close>, \<^verbatim>\<open>api_video\<close>: the decoded body as it is.\<close>

definition api_image :: "http_outcome \<Rightarrow> json" where
  "api_image resp = (case resp of Decoded data \<Rightarrow> data | _ \<Rightarrow> JNull)"

definition api_audio :: "http_outcome \<Rightarrow> json" where
  "api_audio resp = (case resp of Decoded data \<Rightarrow> data | _ \<Rightarrow> JNull)"

definition api_video :: "http_outcome \<Rightarrow> json" where
  "api_video resp = (case resp of Decoded data \<Rightarrow> data | _ \<Rightarrow> JNull)"

text \<open>
  \<^verbatim>\<open>is_bad_result\<close>: \<^verbatim>\<open>bool(result.get("is_bad") or result.get("status") == "bad")\<close>.
  Only a dictionary has \<^verbatim>\<open>get\<close>.
\<close>

fun is_bad_result :: "json \<Rightarrow> py_error + bool" where
  "is_bad_result (JDict d) =
     Inr (truthy (dict_get d ''is_bad'' JNull) \<or> dict_get d ''status'' JNull = JStr ''bad'')"
| "is_bad_result v = Inl AttributeError"

text \<open>The handlers' test \<^verbatim>\<open>if result and is_bad_result(result)\<close>.\<close>

definition harmful :: "json \<Rightarrow> py_error + bool" where
  "harmful result = (if truthy result then is_bad_result result else Inr False)"

section \<open>Violation ledger\<close>

text \<open>
  The \<^verbatim>\<open>violations\<close> table, keyed by (guild or chat id, user id). Its counts are
  Python integers; SQLite's own limits and I/O failures are outside the model.
  \<^verbatim>\<open>get_violations\<close> returns 0 when there is no row, \<^verbatim>\<open>set_violations\<close> is the upsert
  \<^verbatim>\<open>ON CONFLICT ... DO UPDATE SET count = excluded.count\<close>: it stores the value it is
  given.
\<close>

type_synonym vdb = "int \<times> int \<rightharpoonup> int"

definition get_violations :: "vdb \<Rightarrow> int \<Rightarrow> int \<Rightarrow> int" where
  "get_violations db scope_id user_id = (case db (scope_id, user_id) of None \<Rightarrow> 0 | Some c \<Rightarrow> c)"

definition set_violations :: "vdb \<Rightarrow> int \<Rightarrow> int \<Rightarrow> int \<Rightarrow> vdb" where
  "set_violations db scope_id user_id count = db((scope_id, user_id) \<mapsto> count)"

section \<open>Escalation and enforcement\<close>

definition BAN_VIOLATION_THRESHOLD :: int where
  "BAN_VIOLATION_THRESHOLD = 2"

text \<open>The float literal \<^verbatim>\<open>0.80\<close>: the double nearest to 4/5.\<close>

definition BAN_CONFIDENCE_THRESHOLD :: rat where
  "BAN_CONFIDENCE_THRESHOLD = 3602879701896397 / 4503599627370496"

text \<open>The float literal \<^verbatim>\<open>0.79\<close>.\<close>

definition float_0_79 :: rat where
  "float_0_79 = 889460926405673 / 1125899906842624"

text \<open>The float literals \<^verbatim>\<open>0.9\<close> and \<^verbatim>\<open>0.55\<close>.\<close>

definition float_0_9 :: rat where
  "float_0_9 = 8106479329266893 / 9007199254740992"

definition float_0_55 :: rat where
  "float_0_55 = 2476979795053773 / 4503599627370496"

text \<open>The value of a Python number (a bool is an int); \<open>None\<close> for any other object.\<close>

fun num_of :: "json \<Rightarrow> rat option" where
  "num_of (JBool b) = Some (if b then 1 else 0)"
| "num_of (JInt i) = Some (of_int i)"
| "num_of (JFloat r) = Some r"
| "num_of v = None"

text \<open>\<^verbatim>\<open>x >= t\<close> for a float \<open>t\<close>: a TypeError unless \<open>x\<close> is a number.\<close>

definition py_ge :: "json \<Rightarrow> rat \<Rightarrow> py_error + bool" where
  "py_ge x t = (case num_of x of None \<Rightarrow> Inl TypeError | Some c \<Rightarrow> Inr (t \<le> c))"

text \<open>
  The least positive integer that does not convert to a float: halfway between the
  largest double and \<open>2 ^ 1024\<close>, where rounding goes up and out of range.
\<close>

definition FLOAT_LIMIT :: int where
  "FLOAT_LIMIT = 2 ^ 1024 - 2 ^ 970"

text \<open>
  \<^verbatim>\<open>f"{x:.0%}"\<close>: the error it raises, if any. A string knows no format code \<^verbatim>\<open>%\<close>,
  other non-numbers take no format string, and an integer is converted to a float
  first, which raises OverflowError when it is too large (the comparison
  \<^verbatim>\<open>x >= 0.80\<close> of such an integer does not). The text produced is only shown.
\<close>

fun format_percent :: "json \<Rightarrow> py_error option" where
  "format_percent (JStr s) = Some ValueError"
| "format_percent (JInt i) = (if \<bar>i\<bar> < FLOAT_LIMIT then None else Some OverflowError)"
| "format_percent v = (case num_of v of None \<Rightarrow> Some TypeError | Some c \<Rightarrow> None)"

fun is_str :: "json \<Rightarrow> bool" where
  "is_str (JStr s) = True"
| "is_str v = False"

text \<open>\<^verbatim>\<open>x[:500]\<close> works on strings and lists only.\<close>

fun sliceable :: "json \<Rightarrow> bool" where
  "sliceable (JStr s) = True"
| "sliceable (JList xs) = True"
| "sliceable v = False"

text \<open>\<^verbatim>\<open>a or b\<close>.\<close>

definition py_or :: "json \<Rightarrow> json \<Rightarrow> json" where
  "py_or a b = (if truthy a then a else b)"

fun join :: "string \<Rightarrow> string list \<Rightarrow> string" where
  "join sep [] = []"
| "join sep [s] = s"
| "join sep (s # t # ts) = s @ sep @ join sep (t # ts)"

fun strings_of :: "json list \<Rightarrow> string list option" where
  "strings_of [] = Some []"
| "strings_of (JStr s # xs) = (case strings_of xs of None \<Rightarrow> None | Some ss \<Rightarrow> Some (s # ss))"
| "strings_of (v # xs) = None"

text \<open>
  \<^verbatim>\<open>if isinstance(categories, list): categories = ", ".join(categories)\<close>: joining
  raises a TypeError when an element is not a string.
\<close>

fun join_categories :: "json \<Rightarrow> py_error + json" where
  "join_categories (JList xs) =
     (case strings_of xs of None \<Rightarrow> Inl TypeError | Some ss \<Rightarrow> Inr (JStr (join '', '' ss)))"
| "join_categories v = Inr v"

text \<open>
  \<^verbatim>\<open>should_ban = (new_count >= BAN_VIOLATION_THRESHOLD and confidence >=
  BAN_CONFIDENCE_THRESHOLD)\<close>; \<^verbatim>\<open>and\<close> does not evaluate its right operand when the left
  one is false.
\<close>

definition should_ban :: "int \<Rightarrow> json \<Rightarrow> py_error + bool" where
  "should_ban new_count confidence =
     (if new_count \<ge> BAN_VIOLATION_THRESHOLD then py_ge confidence BAN_CONFIDENCE_THRESHOLD
      else Inr False)"

datatype action = Warn | Ban

definition action_of :: "bool \<Rightarrow> action" where
  "action_of ban = (if ban then Ban else Warn)"

text \<open>
  How the chat platform answers each call of one enforcement run: whether the call
  returns or raises. For Telegram \<open>send_ok\<close> is \<^verbatim>\<open>message.reply_text\<close>; the log channel
  fields are Discord's.
\<close>

record platform =
  delete_ok :: bool
  send_ok :: bool
  log_channel_exists :: bool
  create_channel_ok :: bool
  log_post_ok :: bool
  ban_ok :: bool

text \<open>
  The calls an enforcement run makes, in order, each with whether it succeeded. A
  warning and a log post carry \<open>should_ban\<close>, which picks their title and text.
\<close>

datatype effect =
    DeleteMessage bool
  | WarningMessage bool bool
  | CreateLogChannel bool
  | LogPost bool bool
  | BanMember bool

text \<open>
  What a handler leaves behind: the ledger, the platform calls made, the action
  decided (\<open>should_ban\<close>, once it has been computed) and the exception that ended the
  handler, if one did.
\<close>

record outcome =
  store :: vdb
  trace :: "effect list"
  decision :: "action option"
  raised :: "py_error option"

definition nothing_done :: "vdb \<Rightarrow> outcome" where
  "nothing_done db = \<lparr>store = db, trace = [], decision = None, raised = None\<rparr>"

subsection \<open>Discord\<close>

text \<open>
  An inbound message as \<^verbatim>\<open>on_message\<close> reads it. \<open>has_text\<close> is
  \<^verbatim>\<open>bool(message.content.strip())\<close>; an attachment carries its lower-cased file name
  and content type, whether \<^verbatim>\<open>attachment.read()\<close> succeeds, and the outcome of the
  classification call made for it.
\<close>

record attachment =
  att_name :: string
  att_ctype :: string
  att_size :: int
  att_read_ok :: bool
  att_response :: http_outcome

record dmessage =
  guild :: "int option"
  author :: int
  author_bot :: bool
  author_member :: bool
  has_text :: bool
  attachments :: "attachment list"

text \<open>\<^verbatim>\<open>get_log_channel\<close>: the existing channel, or an attempt to create it.\<close>

definition get_log_channel :: "platform \<Rightarrow> effect list \<times> bool" where
  "get_log_channel p =
     (if log_channel_exists p then ([], True)
      else ([CreateLogChannel (create_channel_ok p)], create_channel_ok p))"

text \<open>
  Steps 1 to 4 of Discord's \<^verbatim>\<open>apply_verdict\<close> (lines 333-381). Each platform call sits
  in its own \<^verbatim>\<open>try\<close>; building the embed slices \<^verbatim>\<open>api_verdict[:500]\<close> outside of one.
\<close>

definition discord_enforce :: "vdb \<Rightarrow> platform \<Rightarrow> bool \<Rightarrow> json \<Rightarrow> outcome" where
  "discord_enforce db p ban api_verdict =
     (let t1 = [DeleteMessage (delete_ok p)] in
      if truthy api_verdict \<and> \<not> sliceable api_verdict
      then \<lparr>store = db, trace = t1, decision = Some (action_of ban), raised = Some TypeError\<rparr>
      else
        let t2 = t1 @ [WarningMessage ban (send_ok p)];
            (created, log_ch) = get_log_channel p;
            t3 = t2 @ created @ (if log_ch then [LogPost ban (log_post_ok p)] else []);
            t4 = t3 @ (if ban then [BanMember (ban_ok p)] else [])
        in \<lparr>store = db, trace = t4, decision = Some (action_of ban), raised = None\<rparr>)"

text \<open>
  Discord's \<^verbatim>\<open>apply_verdict\<close> (lines 305-381). The \<^verbatim>\<open>media_label\<close> argument only adds
  a field to what is shown, so it is left out here and in Telegram's.
\<close>

definition discord_apply_verdict :: "vdb \<Rightarrow> platform \<Rightarrow> dmessage \<Rightarrow> json \<Rightarrow> outcome" where
  "discord_apply_verdict db p m result =
     (case guild m of
        None \<Rightarrow> nothing_done db
      | Some guild_id \<Rightarrow>
          if \<not> author_member m then nothing_done db
          else
            (case result of
               JDict d \<Rightarrow>
                 (case join_categories (dict_get d ''category'' (JList [])) of
                    Inl e \<Rightarrow> \<lparr>store = db, trace = [], decision = None, raised = Some e\<rparr>
                  | Inr categories \<Rightarrow>
                      let confidence = dict_get d ''confidence'' (JFloat 0);
                          api_verdict = py_or (dict_get d ''sender_response'' JNull)
                                              (dict_get d ''response'' (JStr []));
                          prior = get_violations db guild_id (author m);
                          new_count = prior + 1;
                          db' = set_violations db guild_id (author m) new_count
                      in (case should_ban new_count confidence of
                            Inl e \<Rightarrow> \<lparr>store = db', trace = [], decision = None, raised = Some e\<rparr>
                          | Inr ban \<Rightarrow>
                              (case format_percent confidence of
                                 Some e \<Rightarrow> \<lparr>store = db', trace = [],
                                            decision = Some (action_of ban), raised = Some e\<rparr>
                               | None \<Rightarrow> discord_enforce db' p ban api_verdict)))
             | _ \<Rightarrow> \<lparr>store = db, trace = [], decision = None, raised = Some AttributeError\<rparr>))"

subsection \<open>Telegram\<close>

text \<open>
  Telegram's \<^verbatim>\<open>apply_verdict\<close> (lines 295-362). \<^verbatim>\<open>esc\<close> calls \<^verbatim>\<open>replace\<close>, which only a
  string has: on \<^verbatim>\<open>api_verdict\<close> (warn branch) it is outside every \<^verbatim>\<open>try\<close>, on
  \<^verbatim>\<open>categories\<close> it is inside the one around \<^verbatim>\<open>reply_text\<close>, whose handler returns.
\<close>

definition telegram_apply_verdict :: "vdb \<Rightarrow> platform \<Rightarrow> json \<Rightarrow> int \<Rightarrow> int \<Rightarrow> outcome" where
  "telegram_apply_verdict db p result chat_id sender_id =
     (case result of
        JDict d \<Rightarrow>
          (case join_categories (dict_get d ''category'' (JList [])) of
             Inl e \<Rightarrow> \<lparr>store = db, trace = [], decision = None, raised = Some e\<rparr>
           | Inr categories \<Rightarrow>
               let confidence = dict_get d ''confidence'' (JFloat 0);
                   api_verdict = py_or (dict_get d ''sender_response'' JNull)
                                       (dict_get d ''response'' (JStr []));
                   prior = get_violations db chat_id sender_id;
                   new_count = prior + 1;
                   db' = set_violations db chat_id sender_id new_count
               in (case should_ban new_count confidence of
                     Inl e \<Rightarrow> \<lparr>store = db', trace = [], decision = None, raised = Some e\<rparr>
                   | Inr ban \<Rightarrow>
                       if \<not> ban \<and> truthy api_verdict \<and> \<not> is_str api_verdict
                       then \<lparr>store = db', trace = [], decision = Some (action_of ban),
                             raised = Some AttributeError\<rparr>
                       else
                         (case format_percent confidence of
                            Some e \<Rightarrow> \<lparr>store = db', trace = [],
                                       decision = Some (action_of ban), raised = Some e\<rparr>
                          | None \<Rightarrow>
                              if \<not> is_str categories
                              then \<lparr>store = db', trace = [],
                                    decision = Some (action_of ban), raised = None\<rparr>
                              else if \<not> send_ok p
                              then \<lparr>store = db', trace = [WarningMessage ban False],
                                    decision = Some (action_of ban), raised = None\<rparr>
                              else \<lparr>store = db',
                                    trace = WarningMessage ban True #
                                      (if ban then [DeleteMessage (delete_ok p), BanMember (ban_ok p)]
                                       else []),
                                    decision = Some (action_of ban), raised = None\<rparr>)))
      | _ \<Rightarrow> \<lparr>store = db, trace = [], decision = None, raised = Some AttributeError\<rparr>)"

text \<open>
  An update as Telegram's message handlers read it. \<open>message_text\<close> is \<^verbatim>\<open>message.text\<close>
  (empty when there is none); \<open>has_voice\<close> is \<^verbatim>\<open>message.voice or message.audio\<close>,
  \<open>has_video\<close> is \<^verbatim>\<open>message.video or message.animation\<close>; \<open>file_size\<close> is the
  video's, when it has one; \<open>download_ok\<close> says whether \<^verbatim>\<open>download_file\<close> returns.
\<close>

record tg_update =
  has_message :: bool
  chat_type :: string
  chat_id :: int
  from_user :: int
  message_text :: string
  has_voice :: bool
  has_photo :: bool
  has_video :: bool
  file_size :: "int option"
  download_ok :: bool

definition in_group :: "tg_update \<Rightarrow> bool" where
  "in_group u = (chat_type u = ''group'' \<or> chat_type u = ''supergroup'')"

text \<open>The tail every handler shares: \<^verbatim>\<open>if result and is_bad_result(result): apply_verdict\<close>.\<close>

definition telegram_dispatch :: "vdb \<Rightarrow> platform \<Rightarrow> tg_update \<Rightarrow> json \<Rightarrow> outcome" where
  "telegram_dispatch db p u result =
     (case harmful result of
        Inl e \<Rightarrow> \<lparr>store = db, trace = [], decision = None, raised = Some e\<rparr>
      | Inr bad \<Rightarrow>
          if bad then telegram_apply_verdict db p result (chat_id u) (from_user u)
          else nothing_done db)"

definition handle_text :: "vdb \<Rightarrow> platform \<Rightarrow> tg_update \<Rightarrow> http_outcome \<Rightarrow> outcome" where
  "handle_text db p u resp =
     (if \<not> has_message u \<or> message_text u = [] then nothing_done db
      else if \<not> in_group u then nothing_done db
      else telegram_dispatch db p u (api_text resp))"

definition handle_voice :: "vdb \<Rightarrow> platform \<Rightarrow> tg_update \<Rightarrow> http_outcome \<Rightarrow> outcome" where
  "handle_voice db p u resp =
     (if \<not> has_message u \<or> \<not> in_group u then nothing_done db
      else if \<not> has_voice u then nothing_done db
      else if \<not> download_ok u then nothing_done db
      else telegram_dispatch db p u (api_audio resp))"

definition handle_photo :: "vdb \<Rightarrow> platform \<Rightarrow> tg_update \<Rightarrow> http_outcome \<Rightarrow> outcome" where
  "handle_photo db p u resp =
     (if \<not> has_message u \<or> \<not> in_group u then nothing_done db
      else if \<not> has_photo u then nothing_done db
      else if \<not> download_ok u then nothing_done db
      else telegram_dispatch db p u (api_image resp))"

definition too_large :: "int \<Rightarrow> bool" where
  "too_large n = (n > 20 * 1024 * 1024)"

definition handle_video :: "vdb \<Rightarrow> platform \<Rightarrow> tg_update \<Rightarrow> http_outcome \<Rightarrow> outcome" where
  "handle_video db p u resp =
     (if \<not> has_message u \<or> \<not> in_group u then nothing_done db
      else if \<not> has_video u then nothing_done db
      else if (case file_size u of None \<Rightarrow> False | Some n \<Rightarrow> n \<noteq> 0 \<and> too_large n)
      then nothing_done db
      else if \<not> download_ok u then nothing_done db
      else telegram_dispatch db p u (api_video resp))"

subsection \<open>Discord's message event\<close>

definition startswith :: "string \<Rightarrow> string \<Rightarrow> bool" where
  "startswith s pre = (take (length pre) s = pre)"

definition endswith :: "string \<Rightarrow> string list \<Rightarrow> bool" where
  "endswith s sufs =
     list_ex (\<lambda>suf. length suf \<le> length s \<and> drop (length s - length suf) s = suf) sufs"

datatype att_kind = ImageAtt | AudioAtt | VideoAtt

text \<open>The \<^verbatim>\<open>if\<close>/\<^verbatim>\<open>elif\<close> chain of the attachment loop (lines 423-441).\<close>

definition attachment_kind :: "attachment \<Rightarrow> att_kind option" where
  "attachment_kind a =
     (if startswith (att_ctype a) ''image/''
         \<or> endswith (att_name a) [''.jpg'', ''.jpeg'', ''.png'', ''.webp'', ''.gif'']
      then Some ImageAtt
      else if startswith (att_ctype a) ''audio/''
         \<or> endswith (att_name a) [''.ogg'', ''.mp3'', ''.wav'', ''.m4a'', ''.opus'']
      then Some AudioAtt
      else if startswith (att_ctype a) ''video/''
         \<or> endswith (att_name a) [''.mp4'', ''.mov'', ''.webm'', ''.mkv'']
      then Some VideoAtt
      else None)"

text \<open>
  The verdict the loop obtains for one attachment: \<open>None\<close> where it goes on to the
  next one without a verdict (the read failed, the type is none of the three, the
  video is over 20 MB).
\<close>

definition attachment_result :: "attachment \<Rightarrow> json option" where
  "attachment_result a =
     (if \<not> att_read_ok a then None
      else
        (case attachment_kind a of
           None \<Rightarrow> None
         | Some ImageAtt \<Rightarrow> Some (api_image (att_response a))
         | Some AudioAtt \<Rightarrow> Some (api_audio (att_response a))
         | Some VideoAtt \<Rightarrow>
             if too_large (att_size a) then None else Some (api_video (att_response a))))"

text \<open>The loop over \<^verbatim>\<open>message.attachments\<close> (lines 410-445): it breaks after the first
  verdict it applies.\<close>

fun scan_attachments :: "vdb \<Rightarrow> platform \<Rightarrow> dmessage \<Rightarrow> attachment list \<Rightarrow> outcome" where
  "scan_attachments db p m [] = nothing_done db"
| "scan_attachments db p m (a # rest) =
     (case attachment_result a of
        None \<Rightarrow> scan_attachments db p m rest
      | Some result \<Rightarrow>
          (case harmful result of
             Inl e \<Rightarrow> \<lparr>store = db, trace = [], decision = None, raised = Some e\<rparr>
           | Inr bad \<Rightarrow>
               if bad then discord_apply_verdict db p m result
               else scan_attachments db p m rest))"

text \<open>
  \<^verbatim>\<open>on_message\<close> (lines 388-445); \<open>resp\<close> is the outcome of the text classification
  call, made only when the message has text.
\<close>

definition on_message :: "vdb \<Rightarrow> platform \<Rightarrow> dmessage \<Rightarrow> http_outcome \<Rightarrow> outcome" where
  "on_message db p m resp =
     (if guild m = None \<or> author_bot m then nothing_done db
      else if has_text m then
        (case harmful (api_text resp) of
           Inl e \<Rightarrow> \<lparr>store = db, trace = [], decision = None, raised = Some e\<rparr>
         | Inr bad \<Rightarrow>
             if bad then discord_apply_verdict db p m (api_text resp)
             else scan_attachments db p m (attachments m))
      else scan_attachments db p m (attachments m))"

section \<open>Well-typed verdicts, runs of events, sample inputs\<close>

text \<open>
  The spec's verdict holds a list of category tags: a \<^verbatim>\<open>category\<close> field that is a list
  holds strings only (a field that is absent or not a list is not joined).
\<close>

fun category_ok :: "json \<Rightarrow> bool" where
  "category_ok (JDict d) =
     (case map_of d ''category'' of Some (JList xs) \<Rightarrow> list_all is_str xs | _ \<Rightarrow> True)"
| "category_ok v = False"

text \<open>
  The spec's verdict holds a confidence that is a float: the \<^verbatim>\<open>confidence\<close> field is
  absent (then it is 0.0) or a number that formats as a percentage, that is a float, a
  bool, or an integer that converts to a float.
\<close>

fun confidence_ok :: "json \<Rightarrow> bool" where
  "confidence_ok (JDict d) =
     (case map_of d ''confidence'' of
        None \<Rightarrow> True
      | Some (JFloat r) \<Rightarrow> True
      | Some (JBool b) \<Rightarrow> True
      | Some (JInt i) \<Rightarrow> \<bar>i\<bar> < FLOAT_LIMIT
      | Some v \<Rightarrow> False)"
| "confidence_ok v = False"

text \<open>
  Telegram escapes the joined categories for its reply, which needs a string: the
  field is absent, a string, or a list of strings.
\<close>

fun category_is_text :: "json \<Rightarrow> bool" where
  "category_is_text (JDict d) =
     (case map_of d ''category'' of
        None \<Rightarrow> True
      | Some (JList xs) \<Rightarrow> list_all is_str xs
      | Some (JStr s) \<Rightarrow> True
      | Some v \<Rightarrow> False)"
| "category_is_text v = False"

text \<open>Events handled one after the other, each on the ledger the one before left.\<close>

fun handle_texts :: "vdb \<Rightarrow> (platform \<times> tg_update \<times> http_outcome) list \<Rightarrow> vdb" where
  "handle_texts db [] = db"
| "handle_texts db ((p, u, resp) # es) = handle_texts (store (handle_text db p u resp)) es"

fun on_messages :: "vdb \<Rightarrow> (platform \<times> dmessage \<times> http_outcome) list \<Rightarrow> vdb" where
  "on_messages db [] = db"
| "on_messages db ((p, m, resp) # es) = on_messages (store (on_message db p m resp)) es"

text \<open>A text update that \<^verbatim>\<open>handle_text\<close> classifies and whose verdict is harmful.\<close>

definition text_detected :: "tg_update \<Rightarrow> http_outcome \<Rightarrow> bool" where
  "text_detected u resp =
     (has_message u \<and> message_text u \<noteq> [] \<and> in_group u \<and> harmful (api_text resp) = Inr True)"

text \<open>
  The verdicts of one Discord message in the order \<^verbatim>\<open>on_message\<close> asks for them: the
  text's first (when there is text), then one per attachment that gets one. The first
  of them that is not plainly safe decides the event: \<open>apply_first\<close> says how, and
  \<open>on_message_first_unsafe\<close> below shows that \<^verbatim>\<open>on_message\<close> does just that.
\<close>

definition verdicts :: "dmessage \<Rightarrow> http_outcome \<Rightarrow> json list" where
  "verdicts m resp =
     (if has_text m then [api_text resp] else []) @
     List.map_filter attachment_result (attachments m)"

definition first_unsafe :: "dmessage \<Rightarrow> http_outcome \<Rightarrow> json option" where
  "first_unsafe m resp = find (\<lambda>r. harmful r \<noteq> Inr False) (verdicts m resp)"

definition message_detected :: "dmessage \<Rightarrow> http_outcome \<Rightarrow> bool" where
  "message_detected m resp =
     (guild m \<noteq> None \<and> \<not> author_bot m \<and>
      (case first_unsafe m resp of None \<Rightarrow> False | Some r \<Rightarrow> harmful r = Inr True))"

definition apply_first :: "vdb \<Rightarrow> platform \<Rightarrow> dmessage \<Rightarrow> json option \<Rightarrow> outcome" where
  "apply_first db p m first =
     (case first of
        None \<Rightarrow> nothing_done db
      | Some r \<Rightarrow>
          (case harmful r of
             Inl e \<Rightarrow> \<lparr>store = db, trace = [], decision = None, raised = Some e\<rparr>
           | Inr bad \<Rightarrow> if bad then discord_apply_verdict db p m r else nothing_done db))"

text \<open>A classification call that timed out, did not connect, or whose body did not parse.\<close>

definition failed :: "http_outcome \<Rightarrow> bool" where
  "failed resp = (resp = Timeout \<or> resp = ConnectError \<or> resp = Unparseable)"

fun is_delete :: "effect \<Rightarrow> bool" where
  "is_delete (DeleteMessage ok) = True"
| "is_delete e = False"

fun is_warning :: "effect \<Rightarrow> bool" where
  "is_warning (WarningMessage ban ok) = True"
| "is_warning e = False"

fun is_ban :: "effect \<Rightarrow> bool" where
  "is_ban (BanMember ok) = True"
| "is_ban e = False"

text \<open>Sample inputs.\<close>

definition all_ok :: platform where
  "all_ok = \<lparr>delete_ok = True, send_ok = True, log_channel_exists = True,
             create_channel_ok = True, log_post_ok = True, ban_ok = True\<rparr>"

definition member_message :: dmessage where
  "member_message = \<lparr>guild = Some 10, author = 7, author_bot = False, author_member = True,
                     has_text = True, attachments = []\<rparr>"

definition threat :: "json \<Rightarrow> json" where
  "threat confidence =
     JDict [(''is_bad'', JBool True), (''category'', JList [JStr ''threat'']),
            (''confidence'', confidence)]"

definition group_text :: tg_update where
  "group_text = \<lparr>has_message = True, chat_type = ''supergroup'', chat_id = 10, from_user = 7,
                 message_text = ''hello'', has_voice = False, has_photo = False,
                 has_video = False, file_size = None, download_ok = True\<rparr>"

definition bad_response :: http_outcome where
  "bad_response = Decoded (JDict [(''results'', JList [threat (JFloat float_0_9)])])"

definition safe_response :: http_outcome where
  "safe_response = Decoded (JDict [(''results'', JList [JDict [(''is_bad'', JBool False)]])])"

section \<open>Settings\<close>

text \<open>
  A settings dictionary, and the settings table keyed by guild or chat id. The table's
  \<^verbatim>\<open>TEXT\<close> column holds \<^verbatim>\<open>json.dumps\<close> of a dictionary and \<^verbatim>\<open>json.loads\<close> gives the
  dictionary back, so the table is taken to hold the dictionary. The order of a
  dictionary's keys shows in what is printed only; a dictionary is a map here, and
  \<^verbatim>\<open>{**a, **b}\<close> is \<open>a ++ b\<close>.
\<close>

type_synonym settings = "string \<rightharpoonup> json"

type_synonym settings_table = "int \<rightharpoonup> settings"

definition discord_DEFAULT_SETTINGS :: settings where
  "discord_DEFAULT_SETTINGS = map_of
     [(''min_confidence_for_action'', JFloat float_0_55),
      (''mute_threshold_violations'', JInt 2),
      (''block_threshold_violations'', JInt 4),
      (''auto_warn'', JBool True),
      (''auto_block'', JBool True),
      (''instant_mute_categories'',
         JList [JStr ''sexual'', JStr ''verbal_abuse'', JStr ''harassment'', JStr ''gasslighting'']),
      (''instant_block_categories'', JList [JStr ''threat'', JStr ''stalking'']),
      (''apply_only_if_not_safe'', JBool True),
      (''tag_sender_in_reply'', JBool True)]"

definition telegram_DEFAULT_SETTINGS :: settings where
  "telegram_DEFAULT_SETTINGS = map_of
     [(''min_confidence_for_action'', JFloat float_0_55),
      (''mute_minutes'', JInt 60),
      (''mute_threshold_violations'', JInt 2),
      (''block_threshold_violations'', JInt 4),
      (''auto_warn'', JBool True),
      (''auto_mute'', JBool True),
      (''auto_block'', JBool True),
      (''instant_mute_categories'',
         JList [JStr ''sexual'', JStr ''verbal_abuse'', JStr ''harassment'', JStr ''gasslighting'']),
      (''instant_block_categories'', JList [JStr ''threat'', JStr ''stalking'']),
      (''apply_only_if_not_safe'', JBool True),
      (''tag_sender_in_reply'', JBool True)]"

text \<open>\<^verbatim>\<open>save_settings\<close>: the upsert \<^verbatim>\<open>DO UPDATE SET settings = excluded.settings\<close>.\<close>

definition save_settings :: "settings_table \<Rightarrow> int \<Rightarrow> settings \<Rightarrow> settings_table" where
  "save_settings tbl scope_id s = tbl(scope_id \<mapsto> s)"

text \<open>Discord's \<^verbatim>\<open>get_settings\<close> (lines 108-113).\<close>

definition discord_get_settings :: "settings_table \<Rightarrow> int \<Rightarrow> settings" where
  "discord_get_settings tbl guild_id =
     (case tbl guild_id of
        Some stored \<Rightarrow> discord_DEFAULT_SETTINGS ++ stored
      | None \<Rightarrow> discord_DEFAULT_SETTINGS)"


text \<open>
  Telegram. \<^verbatim>\<open>get_settings\<close> copies the module's \<^verbatim>\<open>DEFAULT_SETTINGS\<close> dictionary but
  not the lists in it: where the stored dictionary has no value for a key, the value
  returned is the very object the defaults hold, and \<^verbatim>\<open>cattoggle\<close> changes that list in
  place. So the dictionary of defaults is part of the state, next to the table.
\<close>

record tg_settings =
  defaults :: settings
  chat_settings :: settings_table

definition telegram_get_settings :: "tg_settings \<Rightarrow> int \<Rightarrow> settings" where
  "telegram_get_settings st chat =
     (case chat_settings st chat of
        Some stored \<Rightarrow> defaults st ++ stored
      | None \<Rightarrow> defaults st)"

definition telegram_save_settings :: "tg_settings \<Rightarrow> int \<Rightarrow> settings \<Rightarrow> tg_settings" where
  "telegram_save_settings st chat s = st\<lparr>chat_settings := save_settings (chat_settings st) chat s\<rparr>"




section \<open>Handlers on one event loop\<close>

text \<open>
  A coroutine runs without interruption from one \<^verbatim>\<open>await\<close> to the next. Discord's
  \<^verbatim>\<open>apply_verdict\<close> has no \<^verbatim>\<open>await\<close> before \<^verbatim>\<open>message.delete()\<close> (line 335): its first
  step runs lines 310 to 331, reading the count and writing it back, and everything
  after that only calls the platform. A run of it is the list of its steps still to
  do; the loop picks, again and again, a run and performs its next step. A schedule is
  the list of the runs picked, by position; picking a finished run does nothing.
\<close>

datatype step = ReadIncrementWrite platform dmessage json | PlatformCall

text \<open>
  The first step, then one step after each of the five awaited calls (delete, send,
  create the log channel, post to it, ban); a call that is not made leaves a step that
  does nothing.
\<close>

definition apply_verdict_steps :: "platform \<Rightarrow> dmessage \<Rightarrow> json \<Rightarrow> step list" where
  "apply_verdict_steps p m result = ReadIncrementWrite p m result # replicate 5 PlatformCall"

fun is_increment :: "step \<Rightarrow> bool" where
  "is_increment (ReadIncrementWrite p m result) = True"
| "is_increment PlatformCall = False"

text \<open>The read-increment-write steps still to do.\<close>

definition pending :: "step list list \<Rightarrow> nat" where
  "pending runs = sum_list (map (\<lambda>run. length (filter is_increment run)) runs)"

text \<open>A step of a run for member \<open>a\<close> of guild \<open>g\<close>, on a verdict whose category joins.\<close>

fun step_of :: "int \<Rightarrow> int \<Rightarrow> step \<Rightarrow> bool" where
  "step_of g a (ReadIncrementWrite p m result) =
     (guild m = Some g \<and> author m = a \<and> author_member m \<and> category_ok result)"
| "step_of g a PlatformCall = True"

fun exec_step :: "step \<Rightarrow> vdb \<Rightarrow> vdb" where
  "exec_step (ReadIncrementWrite p m result) db = store (discord_apply_verdict db p m result)"
| "exec_step PlatformCall db = db"

fun run_schedule :: "nat list \<Rightarrow> step list list \<Rightarrow> vdb \<Rightarrow> step list list \<times> vdb" where
  "run_schedule [] runs db = (runs, db)"
| "run_schedule (i # sched) runs db =
     (if i < length runs then
        (case runs ! i of
           [] \<Rightarrow> run_schedule sched runs db
         | s # rest \<Rightarrow> run_schedule sched (runs[i := rest]) (exec_step s db))
      else run_schedule sched runs db)"

section \<open>Response normalisation\<close>

lemma api_text_wrapped:
  "map_of d ''results'' = Some (JList (v # vs)) \<Longrightarrow> api_text (Decoded (JDict d)) = v"
  by (simp add: api_text_def)

lemma api_text_bare:
  "map_of d ''results'' = None \<Longrightarrow> api_text (Decoded (JDict d)) = JDict d"
  by (simp add: api_text_def)

lemma api_text_not_dict:
  "\<forall>d. data \<noteq> JDict d \<Longrightarrow> api_text (Decoded data) = data"
  by (cases data) (auto simp: api_text_def)

lemma harmful_is_bad_true:
  "map_of v ''is_bad'' = Some (JBool True) \<Longrightarrow> harmful (JDict v) = Inr True"
  by (cases v) (auto simp: harmful_def dict_get_def)

lemma api_text_results_empty:
  "map_of d ''results'' = Some (JList []) \<or> map_of d ''results'' = Some (JStr []) \<Longrightarrow>
   api_text (Decoded (JDict d)) = JNull"
  by (auto simp: api_text_def)

lemma api_text_results_string:
  "map_of d ''results'' = Some (JStr (ch # cs)) \<Longrightarrow> api_text (Decoded (JDict d)) = JStr [ch]"
  by (simp add: api_text_def)

lemma api_text_results_other:
  assumes "map_of d ''results'' = Some rs"
      and "\<forall>ys. rs \<noteq> JList ys" and "\<forall>cs. rs \<noteq> JStr cs"
  shows "api_text (Decoded (JDict d)) = JNull"
  using assms by (cases rs) (simp_all add: api_text_def)

text \<open>
  C8 (as amended). What decides is whether the decoded dictionary has the key
  \<^verbatim>\<open>results\<close>, not what the key holds. With the key, the verdict is element 0 of a
  list that has one (the first character of a string that has one); an empty list or
  string, and a value that is neither (a number, \<^verbatim>\<open>null\<close>, a dictionary), make the
  client return \<^verbatim>\<open>None\<close>, its answer for a failed call. A dictionary without the key,
  and a body that is no dictionary, normalise to themselves. So a verdict \<open>v\<close> with
  \<^verbatim>\<open>is_bad\<close> true (and no \<^verbatim>\<open>results\<close> key of its own) comes out the same whether it
  is sent wrapped in \<^verbatim>\<open>{"results": [v, ...]}\<close> or bare, and the handlers' test finds
  it harmful, as it finds a verdict whose \<^verbatim>\<open>status\<close> is \<^verbatim>\<open>"bad"\<close>.
\<close>

theorem C8_response_normalisation:
  "(map_of d ''results'' = Some (JList (x # xs)) \<longrightarrow> api_text (Decoded (JDict d)) = x)
   \<and> (map_of d ''results'' = None \<longrightarrow> api_text (Decoded (JDict d)) = JDict d)
   \<and> ((\<forall>d'. data \<noteq> JDict d') \<longrightarrow> api_text (Decoded data) = data)
   \<and> (map_of v ''is_bad'' = Some (JBool True) \<and> map_of v ''results'' = None \<longrightarrow>
        api_text (Decoded (JDict ((''results'', JList (JDict v # vs)) # rest))) = JDict v
        \<and> api_text (Decoded (JDict v)) = JDict v
        \<and> harmful (JDict v) = Inr True)
   \<and> (map_of v ''status'' = Some (JStr ''bad'') \<longrightarrow> is_bad_result (JDict v) = Inr True)
   \<and> (map_of d ''results'' = Some (JList []) \<or> map_of d ''results'' = Some (JStr []) \<longrightarrow>
        api_text (Decoded (JDict d)) = JNull)
   \<and> (map_of d ''results'' = Some (JStr (ch # cs)) \<longrightarrow>
        api_text (Decoded (JDict d)) = JStr [ch])
   \<and> (map_of d ''results'' = Some rs \<and> (\<forall>ys. rs \<noteq> JList ys) \<and> (\<forall>zs. rs \<noteq> JStr zs) \<longrightarrow>
        api_text (Decoded (JDict d)) = JNull)
   \<and> harmful JNull = Inr False"
proof (intro conjI impI)
  assume "map_of d ''results'' = Some (JList (x # xs))"
  then show "api_text (Decoded (JDict d)) = x" by (rule api_text_wrapped)
next
  assume "map_of d ''results'' = None"
  then show "api_text (Decoded (JDict d)) = JDict d" by (rule api_text_bare)
next
  assume "\<forall>d'. data \<noteq> JDict d'"
  then show "api_text (Decoded data) = data" by (simp add: api_text_not_dict)
next
  assume h: "map_of v ''is_bad'' = Some (JBool True) \<and> map_of v ''results'' = None"
  show "api_text (Decoded (JDict ((''results'', JList (JDict v # vs)) # rest))) = JDict v"
    by (simp add: api_text_def)
  from h show "api_text (Decoded (JDict v)) = JDict v" by (simp add: api_text_bare)
  from h show "harmful (JDict v) = Inr True" by (simp add: harmful_is_bad_true)
next
  assume "map_of v ''status'' = Some (JStr ''bad'')"
  then show "is_bad_result (JDict v) = Inr True" by (simp add: dict_get_def)
next
  assume "map_of d ''results'' = Some (JList []) \<or> map_of d ''results'' = Some (JStr [])"
  then show "api_text (Decoded (JDict d)) = JNull" by (rule api_text_results_empty)
next
  assume "map_of d ''results'' = Some (JStr (ch # cs))"
  then show "api_text (Decoded (JDict d)) = JStr [ch]" by (rule api_text_results_string)
next
  assume "map_of d ''results'' = Some rs \<and> (\<forall>ys. rs \<noteq> JList ys) \<and> (\<forall>zs. rs \<noteq> JStr zs)"
  then show "api_text (Decoded (JDict d)) = JNull" by (simp add: api_text_results_other)
next
  show "harmful JNull = Inr False" by (simp add: harmful_def)
qed

theorem C8_response_normalisation_witness:
  "api_text (Decoded (JDict [(''results'', JList [JDict [(''is_bad'', JBool True)]])]))
     = JDict [(''is_bad'', JBool True)]
   \<and> api_text (Decoded (JDict [(''is_bad'', JBool True)])) = JDict [(''is_bad'', JBool True)]
   \<and> harmful (JDict [(''is_bad'', JBool True)]) = Inr True
   \<and> api_text (Decoded (JList [JInt 1])) = JList [JInt 1]
   \<and> is_bad_result (JDict [(''status'', JStr ''bad'')]) = Inr True"
  using C8_response_normalisation
    [of "[(''results'', JList [JDict [(''is_bad'', JBool True)]])]"
        "JDict [(''is_bad'', JBool True)]" "[]" "JList [JInt 1]"
        "[(''is_bad'', JBool True)]" "[]" "[]"]
    C8_response_normalisation
    [of "[(''is_bad'', JBool True)]" "JNull" "[]" "JNull" "[(''status'', JStr ''bad'')]" "[]" "[]"]
  by simp

text \<open>
  A body whose \<^verbatim>\<open>results\<close> is the number 5, or an empty list, next to \<^verbatim>\<open>is_bad\<close> true:
  the client returns \<^verbatim>\<open>None\<close>, which the handlers' test takes for safe, though the
  body itself passes that test.
\<close>

theorem C8_results_without_element_0:
  "api_text (Decoded (JDict [(''results'', JInt 5), (''is_bad'', JBool True)])) = JNull
   \<and> api_text (Decoded (JDict [(''results'', JList []), (''is_bad'', JBool True)])) = JNull
   \<and> harmful JNull = Inr False
   \<and> harmful (JDict [(''results'', JInt 5), (''is_bad'', JBool True)]) = Inr True"
  by (simp add: api_text_def harmful_def dict_get_def)

section \<open>Auxiliary facts\<close>

lemma strings_of_all_str: "list_all is_str xs \<Longrightarrow> \<exists>ss. strings_of xs = Some ss"
proof (induction xs)
  case Nil
  then show ?case by simp
next
  case (Cons x xs)
  then show ?case by (cases x) auto
qed

lemma category_ok_join:
  "category_ok (JDict d) \<Longrightarrow> \<exists>cats. join_categories (dict_get d ''category'' (JList [])) = Inr cats"
proof (cases "map_of d ''category''")
  case None
  then show ?thesis by (simp add: dict_get_def)
next
  case (Some v)
  assume ok: "category_ok (JDict d)"
  show ?thesis
  proof (cases v)
    case (JList xs)
    with Some ok have "list_all is_str xs" by simp
    then obtain ss where "strings_of xs = Some ss" using strings_of_all_str by blast
    with Some JList show ?thesis by (simp add: dict_get_def)
  qed (use Some in \<open>simp_all add: dict_get_def\<close>)
qed

lemma should_ban_num:
  "num_of conf = Some c \<Longrightarrow>
   should_ban n conf = Inr (n \<ge> 2 \<and> c \<ge> BAN_CONFIDENCE_THRESHOLD)"
  by (simp add: should_ban_def py_ge_def BAN_VIOLATION_THRESHOLD_def)

lemma confidence_ok_format:
  "confidence_ok (JDict d) \<Longrightarrow> format_percent (dict_get d ''confidence'' (JFloat 0)) = None"
  by (simp add: dict_get_def split: option.splits json.splits)

lemma confidence_ok_num:
  "confidence_ok (JDict d) \<Longrightarrow> \<exists>c. num_of (dict_get d ''confidence'' (JFloat 0)) = Some c"
  by (simp add: dict_get_def split: option.splits json.splits)

lemma decision_discord_enforce [simp]:
  "decision (discord_enforce db p ban av) = Some (action_of ban)"
  by (simp add: discord_enforce_def Let_def split: prod.splits)

lemma store_discord_enforce [simp]: "store (discord_enforce db p ban av) = db"
  by (simp add: discord_enforce_def Let_def split: prod.splits)

lemma get_set_violations [simp]:
  "get_violations (set_violations db s u c) s u = c"
  by (simp add: get_violations_def set_violations_def)

lemma get_set_violations_other:
  "(s', u') \<noteq> (s, u) \<Longrightarrow> get_violations (set_violations db s u c) s' u' = get_violations db s' u'"
  by (auto simp: get_violations_def set_violations_def)

lemma telegram_apply_verdict_store:
  assumes "category_ok (JDict d)"
  shows "store (telegram_apply_verdict db p (JDict d) chat uid) =
           set_violations db chat uid (get_violations db chat uid + 1)"
proof -
  from assms obtain cats where
    "join_categories (dict_get d ''category'' (JList [])) = Inr cats"
    using category_ok_join by blast
  then show ?thesis
    by (simp add: telegram_apply_verdict_def Let_def split: sum.splits option.splits)
qed

lemma discord_apply_verdict_store:
  assumes "category_ok (JDict d)" and "guild m = Some g" and "author_member m"
  shows "store (discord_apply_verdict db p m (JDict d)) =
           set_violations db g (author m) (get_violations db g (author m) + 1)"
proof -
  from assms(1) obtain cats where
    "join_categories (dict_get d ''category'' (JList [])) = Inr cats"
    using category_ok_join by blast
  with assms(2,3) show ?thesis
    by (simp add: discord_apply_verdict_def Let_def split: sum.splits option.splits)
qed

lemma scan_attachments_find:
  "scan_attachments db p m as =
     apply_first db p m (find (\<lambda>r. harmful r \<noteq> Inr False) (List.map_filter attachment_result as))"
proof (induction as)
  case Nil
  then show ?case by (simp add: apply_first_def)
next
  case (Cons a as)
  show ?case
  proof (cases "attachment_result a")
    case None
    with Cons show ?thesis by simp
  next
    case (Some r)
    with Cons show ?thesis
      by (cases "harmful r") (auto simp: apply_first_def)
  qed
qed

lemma on_message_first_unsafe:
  assumes "guild m \<noteq> None" and "\<not> author_bot m"
  shows "on_message db p m resp = apply_first db p m (first_unsafe m resp)"
proof (cases "has_text m")
  case True
  with assms show ?thesis
    by (cases "harmful (api_text resp)")
       (auto simp: on_message_def first_unsafe_def verdicts_def scan_attachments_find apply_first_def)
next
  case False
  with assms show ?thesis
    by (auto simp: on_message_def first_unsafe_def verdicts_def scan_attachments_find)
qed

lemma harmful_True_dict: "harmful r = Inr True \<Longrightarrow> \<exists>d. r = JDict d"
  by (cases r) (simp_all add: harmful_def split: if_splits)

lemma handle_text_store:
  assumes "text_detected u resp \<longrightarrow> category_ok (api_text resp)"
  shows "store (handle_text db p u resp) =
           (if text_detected u resp
            then set_violations db (chat_id u) (from_user u)
                   (get_violations db (chat_id u) (from_user u) + 1)
            else db)"
proof (cases "text_detected u resp")
  case True
  then obtain d where d: "api_text resp = JDict d"
    using harmful_True_dict by (auto simp: text_detected_def)
  with True assms show ?thesis
    by (simp add: handle_text_def telegram_dispatch_def text_detected_def
        telegram_apply_verdict_store)
next
  case False
  then show ?thesis
    by (cases "harmful (api_text resp)")
       (auto simp: handle_text_def telegram_dispatch_def text_detected_def nothing_done_def)
qed

lemma handle_texts_count:
  assumes "\<forall>(p, u, resp) \<in> set es. chat_id u = chat \<and> from_user u = uid \<and>
             (text_detected u resp \<longrightarrow> category_ok (api_text resp))"
  shows "get_violations (handle_texts db es) chat uid =
           get_violations db chat uid + int (length (filter (\<lambda>(p, u, resp). text_detected u resp) es))"
  using assms
proof (induction es arbitrary: db)
  case Nil
  then show ?case by simp
next
  case (Cons e es)
  obtain p u resp where e: "e = (p, u, resp)" by (cases e)
  from Cons.prems e have u: "chat_id u = chat" "from_user u = uid"
    and ok: "text_detected u resp \<longrightarrow> category_ok (api_text resp)" by auto
  from Cons.prems have rest: "\<forall>(p, u, resp) \<in> set es. chat_id u = chat \<and> from_user u = uid \<and>
             (text_detected u resp \<longrightarrow> category_ok (api_text resp))" by simp
  show ?case
    using Cons.IH [OF rest, of "store (handle_text db p u resp)"] u
    by (simp add: e handle_text_store [OF ok])
qed

lemma apply_first_store:
  assumes "guild m = Some g" and "author_member m"
      and "\<forall>r. first = Some r \<and> harmful r = Inr True \<longrightarrow> category_ok r"
  shows "store (apply_first db p m first) =
           (if (case first of None \<Rightarrow> False | Some r \<Rightarrow> harmful r = Inr True)
            then set_violations db g (author m) (get_violations db g (author m) + 1)
            else db)"
proof (cases first)
  case None
  then show ?thesis by (simp add: apply_first_def nothing_done_def)
next
  case (Some r)
  show ?thesis
  proof (cases "harmful r")
    case (Inl e)
    with Some show ?thesis by (simp add: apply_first_def)
  next
    case (Inr b)
    show ?thesis
    proof (cases b)
      case True
      with Inr obtain d where "r = JDict d" using harmful_True_dict by auto
      with Some Inr True assms show ?thesis
        by (simp add: apply_first_def discord_apply_verdict_store)
    next
      case False
      with Some Inr show ?thesis by (simp add: apply_first_def nothing_done_def)
    qed
  qed
qed

section \<open>The escalation decision\<close>

text \<open>
  C1. For a verdict whose category joins, \<^verbatim>\<open>apply_verdict\<close> on both platforms decides
  ban exactly when the new count, the stored count plus one, is at least 2 and the
  confidence, a number of value \<open>c\<close> (an absent one is 0.0), is at least the float
  0.80; otherwise it decides warn. With a stored count of 0 it decides warn whatever
  the confidence field holds. On Discord the message is a guild member's: for anyone
  else \<^verbatim>\<open>apply_verdict\<close> returns at once.
\<close>

theorem C1_escalation_decision:
  assumes "category_ok (JDict d)" and "guild m = Some g" and "author_member m"
  shows "(num_of (dict_get d ''confidence'' (JFloat 0)) = Some c \<longrightarrow>
            decision (discord_apply_verdict db p m (JDict d)) =
              Some (if get_violations db g (author m) + 1 \<ge> 2 \<and> c \<ge> BAN_CONFIDENCE_THRESHOLD
                    then Ban else Warn)
            \<and> decision (telegram_apply_verdict db p (JDict d) chat uid) =
              Some (if get_violations db chat uid + 1 \<ge> 2 \<and> c \<ge> BAN_CONFIDENCE_THRESHOLD
                    then Ban else Warn))
       \<and> (get_violations db g (author m) = 0 \<longrightarrow>
            decision (discord_apply_verdict db p m (JDict d)) = Some Warn)
       \<and> (get_violations db chat uid = 0 \<longrightarrow>
            decision (telegram_apply_verdict db p (JDict d) chat uid) = Some Warn)
       \<and> BAN_VIOLATION_THRESHOLD = 2"
proof -
  from assms(1) obtain cats where
    cats: "join_categories (dict_get d ''category'' (JList [])) = Inr cats"
    using category_ok_join by blast
  have general: "decision (discord_apply_verdict db p m (JDict d)) =
           Some (if get_violations db g (author m) + 1 \<ge> 2 \<and> c \<ge> BAN_CONFIDENCE_THRESHOLD
                 then Ban else Warn)
         \<and> decision (telegram_apply_verdict db p (JDict d) chat uid) =
           Some (if get_violations db chat uid + 1 \<ge> 2 \<and> c \<ge> BAN_CONFIDENCE_THRESHOLD
                 then Ban else Warn)"
    if conf: "num_of (dict_get d ''confidence'' (JFloat 0)) = Some c"
    using assms(2,3) cats
    by (simp add: discord_apply_verdict_def telegram_apply_verdict_def Let_def
        should_ban_num [OF conf] action_of_def split: option.splits)
  have first_discord: "decision (discord_apply_verdict db p m (JDict d)) = Some Warn"
    if "get_violations db g (author m) = 0"
    using that assms(2,3) cats
    by (simp add: discord_apply_verdict_def Let_def should_ban_def BAN_VIOLATION_THRESHOLD_def
        action_of_def split: option.splits)
  have first_telegram: "decision (telegram_apply_verdict db p (JDict d) chat uid) = Some Warn"
    if "get_violations db chat uid = 0"
    using that cats
    by (simp add: telegram_apply_verdict_def Let_def should_ban_def BAN_VIOLATION_THRESHOLD_def
        action_of_def split: option.splits)
  from general first_discord first_telegram show ?thesis
    by (simp add: BAN_VIOLATION_THRESHOLD_def)
qed

theorem C1_escalation_decision_witness:
  "decision (discord_apply_verdict (Map.empty((10, 7) \<mapsto> 1)) all_ok member_message
      (threat (JFloat BAN_CONFIDENCE_THRESHOLD))) = Some Ban
   \<and> decision (telegram_apply_verdict (Map.empty((10, 7) \<mapsto> 1)) all_ok
      (threat (JFloat BAN_CONFIDENCE_THRESHOLD)) 10 7) = Some Ban
   \<and> decision (discord_apply_verdict (Map.empty((10, 7) \<mapsto> 1)) all_ok member_message
      (threat (JFloat float_0_79))) = Some Warn
   \<and> decision (telegram_apply_verdict (Map.empty((10, 7) \<mapsto> 1)) all_ok
      (threat (JFloat float_0_79)) 10 7) = Some Warn
   \<and> decision (discord_apply_verdict Map.empty all_ok member_message (threat (JInt 1))) = Some Warn
   \<and> decision (telegram_apply_verdict Map.empty all_ok (threat (JStr ''high'')) 10 7) = Some Warn"
proof -
  let ?db1 = "Map.empty((10, 7) \<mapsto> 1) :: vdb"
  have m: "guild member_message = Some 10" "author_member member_message"
    "author member_message = 7"
    by (simp_all add: member_message_def)
  have ok: "category_ok (JDict [(''is_bad'', JBool True), (''category'', JList [JStr ''threat'']),
            (''confidence'', cf)])" for cf
    by simp
  have n: "num_of (dict_get [(''is_bad'', JBool True), (''category'', JList [JStr ''threat'']),
            (''confidence'', JFloat x)] ''confidence'' (JFloat 0)) = Some x" for x
    by (simp add: dict_get_def)
  have db: "get_violations ?db1 10 7 = 1" "get_violations Map.empty 10 7 = 0"
    by (simp_all add: get_violations_def)
  note A = C1_escalation_decision [OF ok m(1,2), where db = ?db1 and p = all_ok and chat = 10
      and uid = 7, unfolded m(3) db threat_def [symmetric]]
  note B = C1_escalation_decision [OF ok m(1,2), where db = Map.empty and p = all_ok
      and chat = 10 and uid = 7, unfolded m(3) db threat_def [symmetric]]
  from A [of "JFloat BAN_CONFIDENCE_THRESHOLD" BAN_CONFIDENCE_THRESHOLD]
    n [of BAN_CONFIDENCE_THRESHOLD]
  have 1: "decision (discord_apply_verdict ?db1 all_ok member_message
      (threat (JFloat BAN_CONFIDENCE_THRESHOLD))) = Some Ban"
    and 2: "decision (telegram_apply_verdict ?db1 all_ok
      (threat (JFloat BAN_CONFIDENCE_THRESHOLD)) 10 7) = Some Ban"
    by simp_all
  have lt: "\<not> BAN_CONFIDENCE_THRESHOLD \<le> float_0_79"
    by (simp add: BAN_CONFIDENCE_THRESHOLD_def float_0_79_def)
  from A [of "JFloat float_0_79" float_0_79] n [of float_0_79] lt
  have 3: "decision (discord_apply_verdict ?db1 all_ok member_message
      (threat (JFloat float_0_79))) = Some Warn"
    and 4: "decision (telegram_apply_verdict ?db1 all_ok
      (threat (JFloat float_0_79)) 10 7) = Some Warn"
    by simp_all
  from B [of "JInt 1"]
  have 5: "decision (discord_apply_verdict Map.empty all_ok member_message (threat (JInt 1)))
             = Some Warn"
    by simp
  from B [of "JStr ''high''"]
  have 6: "decision (telegram_apply_verdict Map.empty all_ok (threat (JStr ''high'')) 10 7)
             = Some Warn"
    by simp
  from 1 2 3 4 5 6 show ?thesis by blast
qed

lemma harmful_not_True_dispatch:
  "harmful result \<noteq> Inr True \<Longrightarrow>
   trace (telegram_dispatch db p u result) = [] \<and> store (telegram_dispatch db p u result) = db"
  by (cases "harmful result") (auto simp: telegram_dispatch_def nothing_done_def)

lemma nothing_done_simps [simp]:
  "store (nothing_done db) = db" "trace (nothing_done db) = []"
  "decision (nothing_done db) = None" "raised (nothing_done db) = None"
  by (simp_all add: nothing_done_def)

lemma apply_first_none_harmful:
  assumes "\<forall>r \<in> set rs. harmful r \<noteq> Inr True"
  shows "trace (apply_first db p m (find (\<lambda>r. harmful r \<noteq> Inr False) rs)) = [] \<and>
         store (apply_first db p m (find (\<lambda>r. harmful r \<noteq> Inr False) rs)) = db"
proof (cases "find (\<lambda>r. harmful r \<noteq> Inr False) rs")
  case None
  then show ?thesis by (simp add: apply_first_def)
next
  case (Some r)
  then have "r \<in> set rs" by (auto simp: find_Some_iff)
  with assms have "harmful r \<noteq> Inr True" by blast
  with Some show ?thesis
    by (cases "harmful r") (auto simp: apply_first_def)
qed

lemma on_message_none_harmful:
  assumes "\<forall>r \<in> set (verdicts m resp). harmful r \<noteq> Inr True"
  shows "trace (on_message db p m resp) = [] \<and> store (on_message db p m resp) = db"
proof (cases "guild m \<noteq> None \<and> \<not> author_bot m")
  case True
  then show ?thesis
    using apply_first_none_harmful [OF assms]
    by (simp add: on_message_first_unsafe first_unsafe_def)
next
  case False
  then show ?thesis by (auto simp: on_message_def)
qed

lemma discord_delete_first:
  assumes "category_ok (JDict d)"
      and "confidence_ok (JDict d)"
      and "guild m = Some g" and "author_member m"
  shows "\<exists>rest. trace (discord_apply_verdict db p m (JDict d)) = DeleteMessage (delete_ok p) # rest"
proof -
  from assms(1) obtain cats where
    cats: "join_categories (dict_get d ''category'' (JList [])) = Inr cats"
    using category_ok_join by blast
  from confidence_ok_num [OF assms(2)] obtain c where
    conf: "num_of (dict_get d ''confidence'' (JFloat 0)) = Some c" by blast
  show ?thesis
    using assms(3,4) cats
    by (simp add: discord_apply_verdict_def Let_def should_ban_num [OF conf]
        confidence_ok_format [OF assms(2)] discord_enforce_def split: prod.splits)
qed

lemma telegram_no_delete_unless_ban:
  "decision (telegram_apply_verdict db p result chat uid) \<noteq> Some Ban \<Longrightarrow>
   list_all (\<lambda>e. \<not> is_delete e \<and> \<not> is_ban e) (trace (telegram_apply_verdict db p result chat uid))"
  by (auto simp: telegram_apply_verdict_def Let_def action_of_def
      split: json.splits sum.splits option.splits if_splits)

lemma category_is_text_join:
  "category_is_text (JDict d) \<Longrightarrow>
   \<exists>s. join_categories (dict_get d ''category'' (JList [])) = Inr (JStr s)"
proof (cases "map_of d ''category''")
  case None
  then show ?thesis by (simp add: dict_get_def)
next
  case (Some v)
  assume ok: "category_is_text (JDict d)"
  show ?thesis
  proof (cases v)
    case (JList xs)
    with Some ok have "list_all is_str xs" by simp
    then obtain ss where "strings_of xs = Some ss" using strings_of_all_str by blast
    with Some JList show ?thesis by (simp add: dict_get_def)
  qed (use Some ok in \<open>simp_all add: dict_get_def\<close>)
qed

lemma telegram_ban_trace:
  assumes "category_is_text (JDict d)"
      and "confidence_ok (JDict d)"
      and "decision (telegram_apply_verdict db p (JDict d) chat uid) = Some Ban"
      and "send_ok p"
  shows "trace (telegram_apply_verdict db p (JDict d) chat uid) =
           [WarningMessage True True, DeleteMessage (delete_ok p), BanMember (ban_ok p)]"
proof -
  from assms(1) obtain s where
    "join_categories (dict_get d ''category'' (JList [])) = Inr (JStr s)"
    using category_is_text_join by blast
  with assms(3,4) show ?thesis
    by (auto simp: telegram_apply_verdict_def Let_def action_of_def
        confidence_ok_format [OF assms(2)] split: sum.splits if_splits)
qed


lemma message_detected_first:
  "guild m = Some g \<Longrightarrow> \<not> author_bot m \<Longrightarrow>
   message_detected m resp =
     (case first_unsafe m resp of None \<Rightarrow> False | Some r \<Rightarrow> harmful r = Inr True)"
  by (simp add: message_detected_def)

lemma on_message_store:
  assumes "guild m = Some g" and "author_member m"
      and "\<forall>r. first_unsafe m resp = Some r \<and> harmful r = Inr True \<longrightarrow> category_ok r"
  shows "store (on_message db p m resp) =
           (if message_detected m resp
            then set_violations db g (author m) (get_violations db g (author m) + 1)
            else db)"
proof (cases "author_bot m")
  case True
  then show ?thesis by (simp add: on_message_def message_detected_def)
next
  case False
  with assms(1) have "on_message db p m resp = apply_first db p m (first_unsafe m resp)"
    by (simp add: on_message_first_unsafe)
  with False assms show ?thesis
    by (simp add: apply_first_store message_detected_first)
qed

lemma on_messages_count:
  assumes "\<forall>(p, m, resp) \<in> set ms. guild m = Some g \<and> author m = a \<and> author_member m \<and>
             (\<forall>r. first_unsafe m resp = Some r \<and> harmful r = Inr True \<longrightarrow> category_ok r)"
  shows "get_violations (on_messages db ms) g a =
           get_violations db g a + int (length (filter (\<lambda>(p, m, resp). message_detected m resp) ms))"
  using assms
proof (induction ms arbitrary: db)
  case Nil
  then show ?case by simp
next
  case (Cons e ms)
  obtain p m resp where e: "e = (p, m, resp)" by (cases e)
  from Cons.prems e have m: "guild m = Some g" "author m = a" "author_member m"
    and ok: "\<forall>r. first_unsafe m resp = Some r \<and> harmful r = Inr True \<longrightarrow> category_ok r"
    by auto
  from Cons.prems have rest: "\<forall>(p, m, resp) \<in> set ms. guild m = Some g \<and> author m = a \<and>
      author_member m \<and>
      (\<forall>r. first_unsafe m resp = Some r \<and> harmful r = Inr True \<longrightarrow> category_ok r)"
    by simp
  show ?case
    using Cons.IH [OF rest, of "store (on_message db p m resp)"] m(2)
    by (simp add: e on_message_store [OF m(1) m(3) ok])
qed

section \<open>The violation count\<close>

text \<open>
  C2. One harmful detection stores the prior count plus one, on both platforms, for
  every verdict whose category joins and every confidence, whatever the platform
  calls do afterwards. Over a run of events of one (scope, user) the count grows by
  the number of events with a harmful verdict: from 0, after N of them it is N. An
  event without one leaves the ledger as it was. On Discord the author is a guild
  member.
\<close>

theorem C2_violation_count:
  "(category_ok (JDict d) \<longrightarrow>
      get_violations (store (telegram_apply_verdict db p (JDict d) chat uid)) chat uid
        = get_violations db chat uid + 1)
   \<and> (category_ok (JDict d) \<and> guild m = Some g \<and> author_member m \<longrightarrow>
      get_violations (store (discord_apply_verdict db p m (JDict d))) g (author m)
        = get_violations db g (author m) + 1)
   \<and> ((\<forall>(p, u, resp) \<in> set es. chat_id u = chat \<and> from_user u = uid \<and>
          (text_detected u resp \<longrightarrow> category_ok (api_text resp))) \<longrightarrow>
      get_violations (handle_texts db es) chat uid
        = get_violations db chat uid
          + int (length (filter (\<lambda>(p, u, resp). text_detected u resp) es)))
   \<and> ((\<forall>(p, m, resp) \<in> set ms. guild m = Some g \<and> author m = a \<and> author_member m \<and>
          (\<forall>r. first_unsafe m resp = Some r \<and> harmful r = Inr True \<longrightarrow> category_ok r)) \<longrightarrow>
      get_violations (on_messages db ms) g a
        = get_violations db g a
          + int (length (filter (\<lambda>(p, m, resp). message_detected m resp) ms)))
   \<and> (\<not> text_detected u resp \<longrightarrow> store (handle_text db p u resp) = db)
   \<and> (\<not> message_detected m resp \<longrightarrow> store (on_message db p m resp) = db)"
proof (intro conjI impI)
  assume "category_ok (JDict d)"
  then show "get_violations (store (telegram_apply_verdict db p (JDict d) chat uid)) chat uid
        = get_violations db chat uid + 1"
    by (simp add: telegram_apply_verdict_store)
next
  assume "category_ok (JDict d) \<and> guild m = Some g \<and> author_member m"
  then show "get_violations (store (discord_apply_verdict db p m (JDict d))) g (author m)
        = get_violations db g (author m) + 1"
    by (simp add: discord_apply_verdict_store)
next
  assume "\<forall>(p, u, resp) \<in> set es. chat_id u = chat \<and> from_user u = uid \<and>
          (text_detected u resp \<longrightarrow> category_ok (api_text resp))"
  then show "get_violations (handle_texts db es) chat uid
        = get_violations db chat uid
          + int (length (filter (\<lambda>(p, u, resp). text_detected u resp) es))"
    by (rule handle_texts_count)
next
  assume "\<forall>(p, m, resp) \<in> set ms. guild m = Some g \<and> author m = a \<and> author_member m \<and>
          (\<forall>r. first_unsafe m resp = Some r \<and> harmful r = Inr True \<longrightarrow> category_ok r)"
  then show "get_violations (on_messages db ms) g a
        = get_violations db g a
          + int (length (filter (\<lambda>(p, m, resp). message_detected m resp) ms))"
    by (rule on_messages_count)
next
  assume "\<not> text_detected u resp"
  then show "store (handle_text db p u resp) = db"
    by (simp add: handle_text_store)
next
  assume nd: "\<not> message_detected m resp"
  show "store (on_message db p m resp) = db"
  proof (cases "guild m \<noteq> None \<and> \<not> author_bot m")
    case True
    with nd have "case first_unsafe m resp of None \<Rightarrow> True | Some r \<Rightarrow> harmful r \<noteq> Inr True"
      by (auto simp: message_detected_def split: option.splits)
    with True show ?thesis
      by (cases "first_unsafe m resp")
         (auto simp: on_message_first_unsafe apply_first_def split: sum.splits)
  next
    case False
    then show ?thesis by (auto simp: on_message_def)
  qed
qed

lemma bad_response_verdict [simp]: "api_text bad_response = threat (JFloat float_0_9)"
  by (simp add: bad_response_def api_text_def)

lemma safe_response_verdict [simp]: "api_text safe_response = JDict [(''is_bad'', JBool False)]"
  by (simp add: safe_response_def api_text_def)

lemma harmful_threat [simp]: "harmful (threat cf) = Inr True"
  by (simp add: threat_def harmful_def dict_get_def)

lemma harmful_safe [simp]: "harmful (JDict [(''is_bad'', JBool False)]) = Inr False"
  by (simp add: harmful_def dict_get_def)

lemma category_ok_threat [simp]: "category_ok (threat cf)"
  by (simp add: threat_def)

theorem C2_violation_count_witness:
  "get_violations (store (telegram_apply_verdict Map.empty all_ok (threat JNull) 10 7)) 10 7 = 1
   \<and> get_violations (store (discord_apply_verdict Map.empty all_ok member_message (threat JNull)))
        10 7 = 1
   \<and> get_violations (handle_texts Map.empty
        [(all_ok, group_text, bad_response), (all_ok, group_text, safe_response),
         (all_ok, group_text, bad_response)]) 10 7 = 2
   \<and> get_violations (on_messages Map.empty
        [(all_ok, member_message, bad_response), (all_ok, member_message, safe_response),
         (all_ok, member_message, bad_response)]) 10 7 = 2
   \<and> store (handle_text Map.empty all_ok group_text safe_response) = Map.empty
   \<and> store (on_message Map.empty all_ok member_message safe_response) = Map.empty"
  using C2_violation_count [where d = "[(''is_bad'', JBool True), (''category'', JList [JStr ''threat'']),
            (''confidence'', JNull)]" and db = Map.empty and p = all_ok and chat = 10 and uid = 7
      and m = member_message and g = 10 and a = 7 and u = group_text and resp = safe_response
      and es = "[(all_ok, group_text, bad_response), (all_ok, group_text, safe_response),
         (all_ok, group_text, bad_response)]"
      and ms = "[(all_ok, member_message, bad_response), (all_ok, member_message, safe_response),
         (all_ok, member_message, bad_response)]"]
  by (simp add: threat_def [symmetric] member_message_def group_text_def text_detected_def
      in_group_def message_detected_def first_unsafe_def verdicts_def get_violations_def)

lemma handler_not_harmful:
  "harmful (api_text resp) \<noteq> Inr True \<Longrightarrow>
     trace (handle_text db p u resp) = [] \<and> store (handle_text db p u resp) = db"
  "harmful (api_audio resp) \<noteq> Inr True \<Longrightarrow>
     trace (handle_voice db p u resp) = [] \<and> store (handle_voice db p u resp) = db"
  "harmful (api_image resp) \<noteq> Inr True \<Longrightarrow>
     trace (handle_photo db p u resp) = [] \<and> store (handle_photo db p u resp) = db"
  "harmful (api_video resp) \<noteq> Inr True \<Longrightarrow>
     trace (handle_video db p u resp) = [] \<and> store (handle_video db p u resp) = db"
  by (simp_all add: handle_text_def handle_voice_def handle_photo_def handle_video_def
      harmful_not_True_dispatch)

section \<open>Deleting the offending message\<close>

text \<open>
  C3 (as amended). Discord's \<^verbatim>\<open>apply_verdict\<close>, for a guild member's message and a
  verdict with a joinable category and a confidence that formats as a percentage,
  first tries to delete the message, whether or not it goes on to ban. Telegram's
  deletes nothing unless it decided to ban; when it decided to ban on a verdict with
  such a confidence and a category that is text, and the reply was sent, it then tries
  to delete the message and to ban. On both platforms a verdict that is not harmful
  reaches no enforcement: the handlers make no platform call and leave the ledger.
\<close>

theorem C3_message_deletion:
  "(category_ok (JDict d) \<and> confidence_ok (JDict d) \<and>
    guild m = Some g \<and> author_member m \<longrightarrow>
      (\<exists>rest. trace (discord_apply_verdict db p m (JDict d)) = DeleteMessage (delete_ok p) # rest))
   \<and> (decision (telegram_apply_verdict db p result chat uid) \<noteq> Some Ban \<longrightarrow>
        list_all (\<lambda>e. \<not> is_delete e \<and> \<not> is_ban e)
          (trace (telegram_apply_verdict db p result chat uid)))
   \<and> (category_is_text (JDict d) \<and> confidence_ok (JDict d) \<and>
       decision (telegram_apply_verdict db p (JDict d) chat uid) = Some Ban \<and> send_ok p \<longrightarrow>
        trace (telegram_apply_verdict db p (JDict d) chat uid) =
          [WarningMessage True True, DeleteMessage (delete_ok p), BanMember (ban_ok p)])
   \<and> (harmful (api_text resp) \<noteq> Inr True \<longrightarrow>
        trace (handle_text db p u resp) = [] \<and> store (handle_text db p u resp) = db)
   \<and> (harmful (api_audio resp) \<noteq> Inr True \<longrightarrow>
        trace (handle_voice db p u resp) = [] \<and> store (handle_voice db p u resp) = db)
   \<and> (harmful (api_image resp) \<noteq> Inr True \<longrightarrow>
        trace (handle_photo db p u resp) = [] \<and> store (handle_photo db p u resp) = db)
   \<and> (harmful (api_video resp) \<noteq> Inr True \<longrightarrow>
        trace (handle_video db p u resp) = [] \<and> store (handle_video db p u resp) = db)
   \<and> ((\<forall>r \<in> set (verdicts m resp). harmful r \<noteq> Inr True) \<longrightarrow>
        trace (on_message db p m resp) = [] \<and> store (on_message db p m resp) = db)"
proof (intro conjI impI)
  assume "category_ok (JDict d) \<and> confidence_ok (JDict d) \<and>
    guild m = Some g \<and> author_member m"
  then show "\<exists>rest. trace (discord_apply_verdict db p m (JDict d)) = DeleteMessage (delete_ok p) # rest"
    using discord_delete_first by blast
next
  assume "decision (telegram_apply_verdict db p result chat uid) \<noteq> Some Ban"
  then show "list_all (\<lambda>e. \<not> is_delete e \<and> \<not> is_ban e)
          (trace (telegram_apply_verdict db p result chat uid))"
    by (rule telegram_no_delete_unless_ban)
next
  assume "category_is_text (JDict d) \<and> confidence_ok (JDict d) \<and>
       decision (telegram_apply_verdict db p (JDict d) chat uid) = Some Ban \<and> send_ok p"
  then show "trace (telegram_apply_verdict db p (JDict d) chat uid) =
          [WarningMessage True True, DeleteMessage (delete_ok p), BanMember (ban_ok p)]"
    by (simp add: telegram_ban_trace)
next
  assume h: "\<forall>r \<in> set (verdicts m resp). harmful r \<noteq> Inr True"
  from on_message_none_harmful [OF h]
  show "trace (on_message db p m resp) = []" and "store (on_message db p m resp) = db"
    by simp_all
qed (simp_all add: handler_not_harmful)

lemma decision_telegram_threat:
  "decision (telegram_apply_verdict db p (threat (JFloat c)) chat uid) =
     Some (if get_violations db chat uid + 1 \<ge> 2 \<and> c \<ge> BAN_CONFIDENCE_THRESHOLD then Ban else Warn)"
  by (simp add: telegram_apply_verdict_def threat_def dict_get_def Let_def should_ban_def
      py_ge_def BAN_VIOLATION_THRESHOLD_def action_of_def)

lemma harmful_safe_response:
  "harmful (api_text safe_response) \<noteq> Inr True"
  by simp

theorem C3_message_deletion_witness:
  "(\<exists>rest. trace (discord_apply_verdict Map.empty all_ok member_message (threat (JFloat float_0_9)))
      = DeleteMessage True # rest)
   \<and> list_all (\<lambda>e. \<not> is_delete e \<and> \<not> is_ban e)
        (trace (telegram_apply_verdict Map.empty all_ok (threat (JFloat float_0_9)) 10 7))
   \<and> trace (telegram_apply_verdict (Map.empty((10, 7) \<mapsto> 1)) all_ok
        (threat (JFloat float_0_9)) 10 7)
      = [WarningMessage True True, DeleteMessage True, BanMember True]
   \<and> trace (handle_text Map.empty all_ok group_text safe_response) = []
   \<and> trace (on_message Map.empty all_ok member_message safe_response) = []"
proof -
  let ?d = "[(''is_bad'', JBool True), (''category'', JList [JStr ''threat'']),
            (''confidence'', JFloat float_0_9)]"
  let ?db1 = "Map.empty((10, 7) \<mapsto> 1) :: vdb"
  have d: "threat (JFloat float_0_9) = JDict ?d" by (simp add: threat_def)
  have ok: "category_ok (JDict ?d)" "category_is_text (JDict ?d)" "confidence_ok (JDict ?d)"
    by simp_all
  have m: "guild member_message = Some 10" "author_member member_message"
    by (simp_all add: member_message_def)
  have p: "delete_ok all_ok" "send_ok all_ok" "ban_ok all_ok" by (simp_all add: all_ok_def)
  have warn: "decision (telegram_apply_verdict Map.empty all_ok (threat (JFloat float_0_9)) 10 7)
                \<noteq> Some Ban"
    by (simp add: decision_telegram_threat get_violations_def)
  have ban: "decision (telegram_apply_verdict ?db1 all_ok (JDict ?d) 10 7) = Some Ban"
    unfolding d [symmetric]
    by (simp add: decision_telegram_threat get_violations_def float_0_9_def
        BAN_CONFIDENCE_THRESHOLD_def)
  have safe: "\<forall>r \<in> set (verdicts member_message safe_response). harmful r \<noteq> Inr True"
    by (simp add: verdicts_def member_message_def)
  note A = C3_message_deletion [where d = ?d and m = member_message
      and g = 10 and db = Map.empty and p = all_ok
      and result = "threat (JFloat float_0_9)" and chat = 10 and uid = 7
      and resp = safe_response and u = group_text]
  note B = C3_message_deletion [where d = ?d and m = member_message
      and g = 10 and db = ?db1 and p = all_ok
      and result = "threat (JFloat float_0_9)" and chat = 10 and uid = 7
      and resp = safe_response and u = group_text]
  from A ok m p have 1: "\<exists>rest. trace (discord_apply_verdict Map.empty all_ok member_message
      (threat (JFloat float_0_9))) = DeleteMessage True # rest"
    by (simp add: d)
  from A warn have 2: "list_all (\<lambda>e. \<not> is_delete e \<and> \<not> is_ban e)
        (trace (telegram_apply_verdict Map.empty all_ok (threat (JFloat float_0_9)) 10 7))"
    by blast
  from B ok ban p have 3: "trace (telegram_apply_verdict ?db1 all_ok
        (threat (JFloat float_0_9)) 10 7)
      = [WarningMessage True True, DeleteMessage True, BanMember True]"
    by (simp add: d)
  from A harmful_safe_response
  have 4: "trace (handle_text Map.empty all_ok group_text safe_response) = []"
    by blast
  from A safe have 5: "trace (on_message Map.empty all_ok member_message safe_response) = []"
    by blast
  from 1 2 3 4 5 show ?thesis by blast
qed

text \<open>
  Telegram, first violation, every platform call succeeding: the sender is warned and
  the message stays.
\<close>

theorem C3_telegram_warning_keeps_message:
  "harmful (threat (JFloat float_0_9)) = Inr True
   \<and> trace (telegram_apply_verdict Map.empty all_ok (threat (JFloat float_0_9)) 10 7)
       = [WarningMessage False True]"
  by (simp add: telegram_apply_verdict_def threat_def harmful_def dict_get_def Let_def
      should_ban_def BAN_VIOLATION_THRESHOLD_def get_violations_def py_or_def all_ok_def
      float_0_9_def)

text \<open>
  An integer confidence too large for a float: the count is stored, the decision is
  made, and formatting it for the log line ends the handler before any platform call.
\<close>

lemma huge_confidence_raises:
  "raised (discord_apply_verdict (Map.empty((10, 7) \<mapsto> 1)) all_ok member_message
             (threat (JInt (2 ^ 1024)))) = Some OverflowError
   \<and> trace (discord_apply_verdict (Map.empty((10, 7) \<mapsto> 1)) all_ok member_message
             (threat (JInt (2 ^ 1024)))) = []
   \<and> raised (telegram_apply_verdict (Map.empty((10, 7) \<mapsto> 1)) all_ok
             (threat (JInt (2 ^ 1024))) 10 7) = Some OverflowError
   \<and> trace (telegram_apply_verdict (Map.empty((10, 7) \<mapsto> 1)) all_ok
             (threat (JInt (2 ^ 1024))) 10 7) = []"
  by (simp add: discord_apply_verdict_def telegram_apply_verdict_def threat_def dict_get_def
      Let_def should_ban_def py_ge_def BAN_VIOLATION_THRESHOLD_def BAN_CONFIDENCE_THRESHOLD_def
      get_violations_def member_message_def FLOAT_LIMIT_def)

lemma discord_steps_isolated:
  assumes "category_ok (JDict d)"
      and "decision (discord_apply_verdict db p m (JDict d)) = Some Ban"
      and "raised (discord_apply_verdict db p m (JDict d)) = None"
  shows "trace (discord_apply_verdict db p m (JDict d)) =
           DeleteMessage (delete_ok p) # WarningMessage True (send_ok p) #
           fst (get_log_channel p) @
           (if snd (get_log_channel p) then [LogPost True (log_post_ok p)] else []) @
           [BanMember (ban_ok p)]"
proof -
  from assms(1) obtain cats where
    "join_categories (dict_get d ''category'' (JList [])) = Inr cats"
    using category_ok_join by blast
  with assms(2,3) show ?thesis
    by (auto simp: discord_apply_verdict_def discord_enforce_def Let_def action_of_def
        nothing_done_def split: option.splits sum.splits if_splits prod.splits)
qed

section \<open>Failures of single enforcement steps\<close>

text \<open>
  C4. Telegram's \<^verbatim>\<open>apply_verdict\<close> returns from the handler of a failed
  \<^verbatim>\<open>reply_text\<close>: with one prior violation and a confidence of 0.9 it decides to ban,
  and when the reply fails it neither deletes the message nor bans. Discord's goes on
  after every failed step (\<open>discord_steps_isolated\<close>).
\<close>

theorem C4_telegram_failed_reply_skips_ban:
  "decision (telegram_apply_verdict (Map.empty((10, 7) \<mapsto> 1)) (all_ok\<lparr>send_ok := False\<rparr>)
      (threat (JFloat float_0_9)) 10 7) = Some Ban
   \<and> trace (telegram_apply_verdict (Map.empty((10, 7) \<mapsto> 1)) (all_ok\<lparr>send_ok := False\<rparr>)
      (threat (JFloat float_0_9)) 10 7) = [WarningMessage True False]
   \<and> trace (discord_apply_verdict (Map.empty((10, 7) \<mapsto> 1)) (all_ok\<lparr>send_ok := False\<rparr>)
      member_message (threat (JFloat float_0_9)))
     = [DeleteMessage True, WarningMessage True False, LogPost True True, BanMember True]"
  by (simp add: telegram_apply_verdict_def discord_apply_verdict_def discord_enforce_def
      get_log_channel_def threat_def dict_get_def Let_def
      should_ban_def py_ge_def BAN_VIOLATION_THRESHOLD_def BAN_CONFIDENCE_THRESHOLD_def
      get_violations_def py_or_def all_ok_def member_message_def float_0_9_def action_of_def)

lemma failed_api:
  "failed resp \<Longrightarrow> api_text resp = JNull \<and> api_image resp = JNull \<and>
                  api_audio resp = JNull \<and> api_video resp = JNull"
  by (auto simp: failed_def api_text_def api_image_def api_audio_def api_video_def)

lemma harmful_JNull [simp]: "harmful JNull = Inr False"
  by (simp add: harmful_def)

lemma dispatch_JNull [simp]: "telegram_dispatch db p u JNull = nothing_done db"
  by (simp add: telegram_dispatch_def)

lemma failed_handlers:
  assumes "failed resp"
  shows "handle_text db p u resp = nothing_done db"
    and "handle_voice db p u resp = nothing_done db"
    and "handle_photo db p u resp = nothing_done db"
    and "handle_video db p u resp = nothing_done db"
  using failed_api [OF assms]
  by (simp_all add: handle_text_def handle_voice_def handle_photo_def handle_video_def)

lemma failed_attachment_result:
  "failed (att_response a) \<Longrightarrow> attachment_result a = None \<or> attachment_result a = Some JNull"
  using failed_api [of "att_response a"]
  by (auto simp: attachment_result_def split: option.splits att_kind.splits)

lemma failed_attachment_skipped:
  assumes "failed (att_response a)"
  shows "scan_attachments db p m (a # rest) = scan_attachments db p m rest"
  using failed_attachment_result [OF assms] by auto

lemma failed_attachments_nothing:
  "\<forall>a \<in> set as. failed (att_response a) \<Longrightarrow> scan_attachments db p m as = nothing_done db"
proof (induction as)
  case Nil
  then show ?case by simp
next
  case (Cons a as)
  then have "failed (att_response a)" by simp
  from failed_attachment_skipped [OF this] Cons show ?case by simp
qed

lemma discord_apply_verdict_has_text [simp]:
  "discord_apply_verdict db p (m\<lparr>has_text := b\<rparr>) r = discord_apply_verdict db p m r"
  by (simp add: discord_apply_verdict_def Let_def
      cong: option.case_cong if_cong json.case_cong sum.case_cong)

lemma scan_attachments_has_text [simp]:
  "scan_attachments db p (m\<lparr>has_text := b\<rparr>) as = scan_attachments db p m as"
  by (induction as) (simp_all split: option.splits sum.splits)

lemma failed_text_skipped:
  assumes "failed resp"
  shows "on_message db p m resp = on_message db p (m\<lparr>has_text := False\<rparr>) resp"
  using failed_api [OF assms] by (simp add: on_message_def)

section \<open>Classification failures\<close>

text \<open>
  C7. A classification call that times out, does not connect or returns a body that
  does not parse makes every client function return \<^verbatim>\<open>None\<close>. Telegram's handlers
  then do nothing. Discord's \<^verbatim>\<open>on_message\<close> goes on as if the message had no text, its
  attachment loop as if the attachment were not there; when every call of an event
  fails, nothing is done: no platform call, no change of the ledger, no exception.
\<close>

theorem C7_classification_failure:
  "(failed resp \<longrightarrow>
      api_text resp = JNull \<and> api_image resp = JNull \<and> api_audio resp = JNull \<and>
      api_video resp = JNull
      \<and> handle_text db p u resp = nothing_done db
      \<and> handle_voice db p u resp = nothing_done db
      \<and> handle_photo db p u resp = nothing_done db
      \<and> handle_video db p u resp = nothing_done db
      \<and> on_message db p m resp = on_message db p (m\<lparr>has_text := False\<rparr>) resp)
   \<and> (failed (att_response a) \<longrightarrow>
        scan_attachments db p m (a # rest) = scan_attachments db p m rest)
   \<and> (failed resp \<and> (\<forall>a \<in> set (attachments m). failed (att_response a)) \<longrightarrow>
        on_message db p m resp = nothing_done db)
   \<and> store (nothing_done db) = db \<and> trace (nothing_done db) = []
   \<and> raised (nothing_done db) = None"
proof (intro conjI impI)
  assume "failed (att_response a)"
  then show "scan_attachments db p m (a # rest) = scan_attachments db p m rest"
    by (rule failed_attachment_skipped)
next
  assume h: "failed resp \<and> (\<forall>a \<in> set (attachments m). failed (att_response a))"
  then have "scan_attachments db p m (attachments m) = nothing_done db"
    by (simp add: failed_attachments_nothing)
  with h failed_api [of resp] show "on_message db p m resp = nothing_done db"
    by (simp add: on_message_def)
qed (simp_all add: failed_api failed_handlers failed_text_skipped [symmetric])

theorem C7_classification_failure_witness:
  "api_text Timeout = JNull \<and> api_text ConnectError = JNull \<and> api_text Unparseable = JNull
   \<and> handle_text Map.empty all_ok group_text Timeout
       = \<lparr>store = Map.empty, trace = [], decision = None, raised = None\<rparr>
   \<and> on_message Map.empty all_ok
        (member_message\<lparr>attachments := [\<lparr>att_name = ''a.png'', att_ctype = ''image/png'',
           att_size = 10, att_read_ok = True, att_response = Unparseable\<rparr>]\<rparr>) ConnectError
       = \<lparr>store = Map.empty, trace = [], decision = None, raised = None\<rparr>"
proof -
  let ?a = "\<lparr>att_name = ''a.png'', att_ctype = ''image/png'', att_size = 10,
             att_read_ok = True, att_response = Unparseable\<rparr>"
  let ?m = "member_message\<lparr>attachments := [?a]\<rparr>"
  have f: "failed Timeout" "failed ConnectError" "failed Unparseable"
    by (simp_all add: failed_def)
  have fa: "failed ConnectError \<and> (\<forall>a \<in> set (attachments ?m). failed (att_response a))"
    by (simp add: failed_def)
  note A = C7_classification_failure [where resp = Timeout and db = Map.empty and p = all_ok
      and u = group_text and m = member_message and a = ?a and rest = "[]"]
  note B = C7_classification_failure [where resp = Unparseable and db = Map.empty
      and p = all_ok and u = group_text and m = member_message and a = ?a and rest = "[]"]
  note C = C7_classification_failure [where resp = ConnectError and db = Map.empty
      and p = all_ok and u = group_text and m = ?m and a = ?a and rest = "[]"]
  from A f(1) have 1: "api_text Timeout = JNull"
    and 4: "handle_text Map.empty all_ok group_text Timeout = nothing_done Map.empty"
    by blast+
  from B f(3) have 2: "api_text Unparseable = JNull" by blast
  from C f(2) have 3: "api_text ConnectError = JNull" by blast
  from C fa have 5: "on_message Map.empty all_ok ?m ConnectError = nothing_done Map.empty"
    by blast
  from 1 2 3 4 5 show ?thesis by (simp add: nothing_done_def)
qed

lemma discord_apply_verdict_store_cases:
  "store (discord_apply_verdict db p m r) = db \<or>
   (\<exists>g. guild m = Some g \<and>
      store (discord_apply_verdict db p m r) =
        set_violations db g (author m) (get_violations db g (author m) + 1))"
  by (auto simp: discord_apply_verdict_def Let_def nothing_done_def
      split: option.splits json.splits sum.splits)

lemma discord_enforce_trace_counts:
  "length (filter is_delete (trace (discord_enforce db p ban av))) \<le> 1 \<and>
   length (filter is_warning (trace (discord_enforce db p ban av))) \<le> 1 \<and>
   length (filter is_ban (trace (discord_enforce db p ban av))) \<le> 1"
  by (simp add: discord_enforce_def get_log_channel_def Let_def)

lemma discord_apply_verdict_trace_counts:
  "length (filter is_delete (trace (discord_apply_verdict db p m r))) \<le> 1 \<and>
   length (filter is_warning (trace (discord_apply_verdict db p m r))) \<le> 1 \<and>
   length (filter is_ban (trace (discord_apply_verdict db p m r))) \<le> 1"
  using discord_enforce_trace_counts
  by (simp add: discord_apply_verdict_def Let_def nothing_done_def
      split: option.splits json.splits sum.splits)

lemma apply_first_cases:
  "apply_first db p m first = nothing_done db \<or>
   (\<exists>e. apply_first db p m first = \<lparr>store = db, trace = [], decision = None, raised = Some e\<rparr>) \<or>
   (\<exists>r. apply_first db p m first = discord_apply_verdict db p m r)"
  by (auto simp: apply_first_def split: option.splits sum.splits)

lemma on_message_cases:
  "on_message db p m resp = nothing_done db \<or>
   (\<exists>e. on_message db p m resp = \<lparr>store = db, trace = [], decision = None, raised = Some e\<rparr>) \<or>
   (\<exists>r. on_message db p m resp = discord_apply_verdict db p m r)"
proof (cases "guild m \<noteq> None \<and> \<not> author_bot m")
  case True
  then show ?thesis using apply_first_cases by (simp add: on_message_first_unsafe)
next
  case False
  then show ?thesis by (auto simp: on_message_def)
qed

section \<open>One verdict per Discord message\<close>

text \<open>
  C10. One \<^verbatim>\<open>on_message\<close> event leaves the ledger as it was or adds one to the author's
  count in the guild, and makes at most one delete, one warning and one ban call. When
  it acts, it acts on the first verdict, text first and then the attachments in order,
  that is not safe; a harmful text verdict is applied whatever the attachments hold.
\<close>

theorem C10_one_verdict_per_message:
  "(store (on_message db p m resp) = db \<or>
     (\<exists>g. guild m = Some g \<and>
        store (on_message db p m resp) =
          set_violations db g (author m) (get_violations db g (author m) + 1)))
   \<and> length (filter is_delete (trace (on_message db p m resp))) \<le> 1
   \<and> length (filter is_warning (trace (on_message db p m resp))) \<le> 1
   \<and> length (filter is_ban (trace (on_message db p m resp))) \<le> 1
   \<and> (guild m \<noteq> None \<and> \<not> author_bot m \<longrightarrow>
        on_message db p m resp = apply_first db p m (first_unsafe m resp))
   \<and> (guild m \<noteq> None \<and> \<not> author_bot m \<and> has_text m \<and> harmful (api_text resp) = Inr True \<longrightarrow>
        on_message db p m resp = discord_apply_verdict db p m (api_text resp))"
proof -
  have cs: "on_message db p m resp = nothing_done db \<or>
     (\<exists>e. on_message db p m resp = \<lparr>store = db, trace = [], decision = None, raised = Some e\<rparr>) \<or>
     (\<exists>r. on_message db p m resp = discord_apply_verdict db p m r)"
    by (rule on_message_cases)
  have s: "store (on_message db p m resp) = db \<or>
     (\<exists>g. guild m = Some g \<and>
        store (on_message db p m resp) =
          set_violations db g (author m) (get_violations db g (author m) + 1))"
  proof -
    from cs consider (idle) "on_message db p m resp = nothing_done db"
      | (err) e where "on_message db p m resp =
                       \<lparr>store = db, trace = [], decision = None, raised = Some e\<rparr>"
      | (applied) r where "on_message db p m resp = discord_apply_verdict db p m r"
      by blast
    then show ?thesis
    proof cases
      case idle
      then show ?thesis by simp
    next
      case err
      then show ?thesis by simp
    next
      case applied
      with discord_apply_verdict_store_cases [of db p m r] show ?thesis by simp
    qed
  qed
  have t: "length (filter is_delete (trace (on_message db p m resp))) \<le> 1 \<and>
           length (filter is_warning (trace (on_message db p m resp))) \<le> 1 \<and>
           length (filter is_ban (trace (on_message db p m resp))) \<le> 1"
  proof -
    from cs consider (idle) "on_message db p m resp = nothing_done db"
      | (err) e where "on_message db p m resp =
                       \<lparr>store = db, trace = [], decision = None, raised = Some e\<rparr>"
      | (applied) r where "on_message db p m resp = discord_apply_verdict db p m r"
      by blast
    then show ?thesis
    proof cases
      case idle
      then show ?thesis by simp
    next
      case err
      then show ?thesis by simp
    next
      case applied
      with discord_apply_verdict_trace_counts [of db p m r] show ?thesis by simp
    qed
  qed
  have f: "guild m \<noteq> None \<and> \<not> author_bot m \<longrightarrow>
        on_message db p m resp = apply_first db p m (first_unsafe m resp)"
    by (simp add: on_message_first_unsafe)
  have x: "guild m \<noteq> None \<and> \<not> author_bot m \<and> has_text m \<and> harmful (api_text resp) = Inr True \<longrightarrow>
        on_message db p m resp = discord_apply_verdict db p m (api_text resp)"
    by (auto simp: on_message_def)
  from s t f x show ?thesis by blast
qed


theorem C10_one_verdict_per_message_witness:
  "on_message Map.empty all_ok
     (member_message\<lparr>attachments := [\<lparr>att_name = ''a.png'', att_ctype = ''image/png'',
        att_size = 10, att_read_ok = True, att_response = Decoded (threat (JFloat float_0_9))\<rparr>]\<rparr>)
     bad_response
   = discord_apply_verdict Map.empty all_ok
       (member_message\<lparr>attachments := [\<lparr>att_name = ''a.png'', att_ctype = ''image/png'',
          att_size = 10, att_read_ok = True, att_response = Decoded (threat (JFloat float_0_9))\<rparr>]\<rparr>)
       (threat (JFloat float_0_9))
   \<and> get_violations (store (on_message Map.empty all_ok
       (member_message\<lparr>attachments := [\<lparr>att_name = ''a.png'', att_ctype = ''image/png'',
          att_size = 10, att_read_ok = True, att_response = Decoded (threat (JFloat float_0_9))\<rparr>]\<rparr>)
       bad_response)) 10 7 = 1"
proof -
  let ?m = "member_message\<lparr>attachments := [\<lparr>att_name = ''a.png'', att_ctype = ''image/png'',
        att_size = 10, att_read_ok = True, att_response = Decoded (threat (JFloat float_0_9))\<rparr>]\<rparr>"
  have h: "guild ?m \<noteq> None \<and> \<not> author_bot ?m \<and> has_text ?m \<and>
           harmful (api_text bad_response) = Inr True"
    by (simp add: member_message_def)
  have g: "guild ?m = Some 10" "author ?m = 7" "author_member ?m"
    by (simp_all add: member_message_def)
  from C10_one_verdict_per_message [where db = Map.empty and p = all_ok and m = ?m
      and resp = bad_response] h
  have 1: "on_message Map.empty all_ok ?m bad_response =
             discord_apply_verdict Map.empty all_ok ?m (api_text bad_response)"
    by blast
  have "category_ok (JDict [(''is_bad'', JBool True), (''category'', JList [JStr ''threat'']),
            (''confidence'', JFloat float_0_9)])" by simp
  from discord_apply_verdict_store [OF this g(1) g(3), of Map.empty all_ok] g(2)
  have 2: "get_violations (store (discord_apply_verdict Map.empty all_ok ?m
             (threat (JFloat float_0_9)))) 10 7 = 1"
    by (simp add: threat_def get_violations_def set_violations_def)
  from 1 2 show ?thesis by simp
qed

lemma category_ok_dict: "category_ok r \<Longrightarrow> \<exists>d. r = JDict d"
  by (cases r) simp_all

lemma exec_step_count:
  assumes "step_of g a s"
  shows "get_violations (exec_step s db) g a =
           get_violations db g a + (if is_increment s then 1 else 0)"
proof (cases s)
  case (ReadIncrementWrite p m r)
  with assms obtain d where "r = JDict d" using category_ok_dict by auto
  with ReadIncrementWrite assms show ?thesis
    by (simp add: discord_apply_verdict_store)
next
  case PlatformCall
  then show ?thesis by simp
qed

lemma pending_update:
  assumes "i < length runs" and "runs ! i = s # rest"
  shows "pending runs = pending (runs[i := rest]) + (if is_increment s then 1 else 0)"
proof -
  have "runs = take i runs @ (s # rest) # drop (Suc i) runs"
    using assms by (metis id_take_nth_drop)
  moreover have "runs[i := rest] = take i runs @ rest # drop (Suc i) runs"
    using assms(1) by (simp add: upd_conv_take_nth_drop)
  ultimately have "pending runs =
      pending (take i runs) + length (filter is_increment (s # rest)) + pending (drop (Suc i) runs)"
    and "pending (runs[i := rest]) =
      pending (take i runs) + length (filter is_increment rest) + pending (drop (Suc i) runs)"
    unfolding pending_def by (metis map_append sum_list.append list.simps(9) sum_list.Cons add.assoc)+
  then show ?thesis by simp
qed

lemma run_schedule_count:
  assumes "\<forall>run \<in> set runs. \<forall>s \<in> set run. step_of g a s"
      and "run_schedule sched runs db = (runs', db')"
  shows "get_violations db' g a + int (pending runs') = get_violations db g a + int (pending runs)"
  using assms
proof (induction sched arbitrary: runs db)
  case Nil
  then show ?case by simp
next
  case (Cons i sched)
  show ?case
  proof (cases "i < length runs")
    case False
    with Cons show ?thesis by simp
  next
    case True
    show ?thesis
    proof (cases "runs ! i")
      case Nil
      with True Cons show ?thesis by simp
    next
      case (Cons s rest)
      from True Cons have mem: "s # rest \<in> set runs" by (metis nth_mem)
      with Cons.prems(1) have s: "step_of g a s" and rest: "\<forall>t \<in> set rest. step_of g a t"
        by auto
      have ok: "\<forall>run \<in> set (runs[i := rest]). \<forall>s \<in> set run. step_of g a s"
        using Cons.prems(1) rest by (metis insert_iff set_update_subset_insert subsetD)
      from True Cons Cons.prems(2)
      have "run_schedule sched (runs[i := rest]) (exec_step s db) = (runs', db')" by simp
      from Cons.IH [OF ok this]
      show ?thesis
        using exec_step_count [OF s, of db] pending_update [OF True Cons] by simp
    qed
  qed
qed

lemma pending_finished: "\<forall>run \<in> set runs. run = [] \<Longrightarrow> pending runs = 0"
  by (induction runs) (simp_all add: pending_def)

lemma pending_apply_verdict_steps:
  "pending (map (\<lambda>(p, m, r). apply_verdict_steps p m r) evs) = length evs"
  by (induction evs) (auto simp: pending_def apply_verdict_steps_def)

section \<open>Concurrent violations\<close>

text \<open>
  C5 (as amended). Discord's \<^verbatim>\<open>apply_verdict\<close> reads the count and writes the count
  plus one with no \<^verbatim>\<open>await\<close> in between. So however the event loop interleaves the
  steps of K such runs for one guild member, once all of them have finished the count
  is the prior count plus K.
\<close>

theorem C5_cooperative_increments:
  assumes "\<forall>(p, m, r) \<in> set evs.
             guild m = Some g \<and> author m = a \<and> author_member m \<and> category_ok r"
      and "run_schedule sched (map (\<lambda>(p, m, r). apply_verdict_steps p m r) evs) db = (runs', db')"
      and "\<forall>run \<in> set runs'. run = []"
  shows "get_violations db' g a = get_violations db g a + int (length evs)"
proof -
  have "\<forall>run \<in> set (map (\<lambda>(p, m, r). apply_verdict_steps p m r) evs). \<forall>s \<in> set run. step_of g a s"
    using assms(1) by (auto simp: apply_verdict_steps_def)
  from run_schedule_count [OF this assms(2)] pending_finished [OF assms(3)]
  show ?thesis by (simp add: pending_apply_verdict_steps)
qed


lemma two_runs_finish:
  "run_schedule [0, 1, 1, 0, 0, 1, 0, 1, 1, 0, 0, 1]
     [ReadIncrementWrite p m r # replicate 5 PlatformCall,
      ReadIncrementWrite p' m' r' # replicate 5 PlatformCall] db
   = ([[], []],
      exec_step (ReadIncrementWrite p' m' r') (exec_step (ReadIncrementWrite p m r) db))"
  by (simp add: numeral_eq_Suc)

theorem C5_cooperative_increments_witness:
  "get_violations
     (snd (run_schedule [0, 1, 1, 0, 0, 1, 0, 1, 1, 0, 0, 1]
        (map (\<lambda>(p, m, r). apply_verdict_steps p m r)
           [(all_ok, member_message, threat (JFloat float_0_9)),
            (all_ok\<lparr>ban_ok := False\<rparr>, member_message, threat JNull)])
        (Map.empty((10, 7) \<mapsto> 3)))) 10 7 = 5"
proof -
  let ?evs = "[(all_ok, member_message, threat (JFloat float_0_9)),
               (all_ok\<lparr>ban_ok := False\<rparr>, member_message, threat JNull)]"
  let ?sched = "[0, 1, 1, 0, 0, 1, 0, 1, 1, 0, 0, 1] :: nat list"
  let ?db = "Map.empty((10, 7) \<mapsto> 3) :: vdb"
  let ?res = "run_schedule ?sched (map (\<lambda>(p, m, r). apply_verdict_steps p m r) ?evs) ?db"
  have ok: "\<forall>(p, m, r) \<in> set ?evs.
             guild m = Some 10 \<and> author m = 7 \<and> author_member m \<and> category_ok r"
    by (simp add: member_message_def threat_def)
  have runs: "map (\<lambda>(p, m, r). apply_verdict_steps p m r) ?evs =
      [ReadIncrementWrite all_ok member_message (threat (JFloat float_0_9))
         # replicate 5 PlatformCall,
       ReadIncrementWrite (all_ok\<lparr>ban_ok := False\<rparr>) member_message (threat JNull)
         # replicate 5 PlatformCall]"
    by (simp add: apply_verdict_steps_def)
  have fin: "fst ?res = [[], []]"
    by (simp only: runs two_runs_finish fst_conv)
  then have finished: "\<forall>run \<in> set (fst ?res). run = []" by simp
  have "?res = (fst ?res, snd ?res)" by simp
  from C5_cooperative_increments [OF ok this finished]
  show ?thesis by (simp add: get_violations_def)
qed

text \<open>
  \<^verbatim>\<open>set_violations\<close> stores the value it is given, computed from an earlier read: two
  read-increment-write sequences in the order read, read, write, write store 1, not 2.
\<close>

theorem C5_separate_read_and_write:
  "get_violations
     (set_violations
        (set_violations Map.empty 10 7 (get_violations Map.empty 10 7 + 1))
        10 7 (get_violations Map.empty 10 7 + 1)) 10 7 = 1
   \<and> get_violations (set_violations (Map.empty((10, 7) \<mapsto> 5)) 10 7 1) 10 7 = 1"
  by (simp add: get_violations_def set_violations_def)

lemma overlay_self: "D ++ D = (D :: settings)"
  by (rule ext) (simp add: map_add_def split: option.splits)

lemma discord_get_settings_saved [simp]:
  "discord_get_settings (save_settings tbl g s) g = discord_DEFAULT_SETTINGS ++ s"
  by (simp add: discord_get_settings_def save_settings_def)

lemma telegram_get_settings_saved [simp]:
  "telegram_get_settings (telegram_save_settings st c s) c = defaults st ++ s"
  by (simp add: telegram_get_settings_def telegram_save_settings_def save_settings_def)

lemma discord_edit_roundtrip:
  "discord_get_settings (save_settings tbl g ((discord_get_settings tbl g)(k \<mapsto> v))) g
     = (discord_get_settings tbl g)(k \<mapsto> v)"
proof (cases "tbl g")
  case None
  then show ?thesis
    by (simp add: discord_get_settings_def save_settings_def overlay_self)
next
  case (Some stored)
  then show ?thesis
    by (simp add: discord_get_settings_def save_settings_def overlay_self)
qed

lemma telegram_edit_roundtrip:
  "telegram_get_settings (telegram_save_settings st c ((telegram_get_settings st c)(k \<mapsto> v))) c
     = (telegram_get_settings st c)(k \<mapsto> v)"
proof (cases "chat_settings st c")
  case None
  then show ?thesis
    by (simp add: telegram_get_settings_def telegram_save_settings_def save_settings_def
        overlay_self)
next
  case (Some stored)
  then show ?thesis
    by (simp add: telegram_get_settings_def telegram_save_settings_def save_settings_def
        overlay_self)
qed

section \<open>Reading and writing settings\<close>

text \<open>
  C6 (as amended). Reading a scope's settings gives the defaults overlaid with the
  stored dictionary: a key the stored dictionary lacks has its default, every key it
  holds has the stored value, also one the defaults do not know. \<^verbatim>\<open>save_settings\<close>
  replaces the stored dictionary, so a read after a write gives the defaults overlaid
  with what was written, and a key left out of the write is back at its default. An
  edit, which writes back the dictionary it read with one key changed, therefore keeps
  every other key. Telegram's part is for the defaults as the module defines them.
\<close>

theorem C6_settings_overlay:
  "(tbl g = None \<longrightarrow> discord_get_settings tbl g = discord_DEFAULT_SETTINGS)
   \<and> (tbl g = Some stored \<longrightarrow>
        discord_get_settings tbl g k =
          (case stored k of Some v \<Rightarrow> Some v | None \<Rightarrow> discord_DEFAULT_SETTINGS k))
   \<and> discord_get_settings (save_settings tbl g s) g = discord_DEFAULT_SETTINGS ++ s
   \<and> (s k = None \<longrightarrow>
        discord_get_settings (save_settings tbl g s) g k = discord_DEFAULT_SETTINGS k)
   \<and> discord_get_settings (save_settings tbl g ((discord_get_settings tbl g)(k \<mapsto> v))) g
        = (discord_get_settings tbl g)(k \<mapsto> v)
   \<and> (defaults st = telegram_DEFAULT_SETTINGS \<longrightarrow>
        (chat_settings st c = None \<longrightarrow> telegram_get_settings st c = telegram_DEFAULT_SETTINGS)
        \<and> (chat_settings st c = Some stored \<longrightarrow>
             telegram_get_settings st c k =
               (case stored k of Some v \<Rightarrow> Some v | None \<Rightarrow> telegram_DEFAULT_SETTINGS k))
        \<and> telegram_get_settings (telegram_save_settings st c s) c = telegram_DEFAULT_SETTINGS ++ s
        \<and> (s k = None \<longrightarrow>
             telegram_get_settings (telegram_save_settings st c s) c k
               = telegram_DEFAULT_SETTINGS k)
        \<and> telegram_get_settings
             (telegram_save_settings st c ((telegram_get_settings st c)(k \<mapsto> v))) c
             = (telegram_get_settings st c)(k \<mapsto> v))"
proof (intro conjI impI)
  show "discord_get_settings (save_settings tbl g ((discord_get_settings tbl g)(k \<mapsto> v))) g
        = (discord_get_settings tbl g)(k \<mapsto> v)"
    by (rule discord_edit_roundtrip)
next
  show "telegram_get_settings
             (telegram_save_settings st c ((telegram_get_settings st c)(k \<mapsto> v))) c
             = (telegram_get_settings st c)(k \<mapsto> v)"
    by (rule telegram_edit_roundtrip)
qed (simp_all add: discord_get_settings_def telegram_get_settings_def map_add_def
      save_settings_def telegram_save_settings_def split: option.splits)

theorem C6_settings_overlay_witness:
  "discord_get_settings Map.empty 10 ''auto_warn'' = Some (JBool True)
   \<and> discord_get_settings (Map.empty(10 \<mapsto> [''auto_warn'' \<mapsto> JBool False])) 10 ''auto_warn''
       = Some (JBool False)
   \<and> discord_get_settings (Map.empty(10 \<mapsto> [''auto_warn'' \<mapsto> JBool False])) 10 ''auto_block''
       = Some (JBool True)
   \<and> telegram_get_settings \<lparr>defaults = telegram_DEFAULT_SETTINGS, chat_settings = Map.empty\<rparr> 10
        ''mute_minutes'' = Some (JInt 60)
   \<and> telegram_get_settings \<lparr>defaults = telegram_DEFAULT_SETTINGS,
        chat_settings = Map.empty(10 \<mapsto> [''mute_minutes'' \<mapsto> JInt 15])\<rparr> 10
        ''mute_minutes'' = Some (JInt 15)"
proof -
  let ?tbl = "Map.empty(10 \<mapsto> [''auto_warn'' \<mapsto> JBool False]) :: settings_table"
  let ?st0 = "\<lparr>defaults = telegram_DEFAULT_SETTINGS, chat_settings = Map.empty\<rparr>"
  let ?st1 = "\<lparr>defaults = telegram_DEFAULT_SETTINGS,
        chat_settings = Map.empty(10 \<mapsto> [''mute_minutes'' \<mapsto> JInt 15])\<rparr>"
  from C6_settings_overlay [where tbl = Map.empty and g = 10 and st = ?st0 and c = 10]
  have 1: "discord_get_settings Map.empty 10 = discord_DEFAULT_SETTINGS"
    and 4: "telegram_get_settings ?st0 10 = telegram_DEFAULT_SETTINGS"
    by simp_all
  from C6_settings_overlay [where tbl = ?tbl and g = 10
      and stored = "[''auto_warn'' \<mapsto> JBool False]" and k = "''auto_warn''"]
  have 2: "discord_get_settings ?tbl 10 ''auto_warn'' = Some (JBool False)" by simp
  from C6_settings_overlay [where tbl = ?tbl and g = 10
      and stored = "[''auto_warn'' \<mapsto> JBool False]" and k = "''auto_block''"]
  have 3: "discord_get_settings ?tbl 10 ''auto_block'' = Some (JBool True)"
    by (simp add: discord_DEFAULT_SETTINGS_def)
  from C6_settings_overlay [where st = ?st1 and c = 10
      and stored = "[''mute_minutes'' \<mapsto> JInt 15]" and k = "''mute_minutes''"]
  have 5: "telegram_get_settings ?st1 10 ''mute_minutes'' = Some (JInt 15)" by simp
  from 1 2 3 4 5 show ?thesis
    by (simp add: discord_DEFAULT_SETTINGS_def telegram_DEFAULT_SETTINGS_def)
qed

text \<open>
  A stored key the defaults do not know is loaded; a field left out of a write is back
  at its default afterwards, whatever was stored before.
\<close>

theorem C6_unknown_kept_omitted_reset:
  "discord_DEFAULT_SETTINGS ''custom'' = None
   \<and> discord_get_settings (Map.empty(10 \<mapsto> [''custom'' \<mapsto> JInt 1])) 10 ''custom''
       = Some (JInt 1)
   \<and> discord_get_settings (Map.empty(10 \<mapsto> [''auto_block'' \<mapsto> JBool False])) 10
        ''auto_block'' = Some (JBool False)
   \<and> discord_get_settings
        (save_settings (Map.empty(10 \<mapsto> [''auto_block'' \<mapsto> JBool False])) 10
           [''auto_warn'' \<mapsto> JBool False]) 10 ''auto_block'' = Some (JBool True)"
  by (simp add: discord_get_settings_def save_settings_def discord_DEFAULT_SETTINGS_def)







section \<open>Editing a category set\<close>




end
